theory Spec2Isabelle
  imports Main "HOL-Library.Word" "HOL-Library.Sublist"
begin

unbundle bit_operations_syntax

section \<open>Session identifiers: \<^verbatim>\<open>str(uuid.uuid4())\<close>\<close>

text \<open>
  \<^verbatim>\<open>beeai.py\<close> obtains a new session identifier with \<^verbatim>\<open>str(uuid.uuid4())\<close>.
  The standard library draws random bytes, reads them as an integer, overwrites the
  variant and version bits and renders the number with at least 32 lower-case
  hexadecimal digits, grouped 8-4-4-4-12:
  \<^verbatim>\<open>
  int &= ~(0xc000 << 48);  int |= 0x8000 << 48
  int &= ~(0xf000 << 64);  int |= version << 76
  hex = '%032x' % self.int
  '%s-%s-%s-%s-%s' % (hex[:8], hex[8:12], hex[12:16], hex[16:20], hex[20:])
  \<close>
  Python integers are unbounded, and so are the integers of the model.
\<close>

type_synonym uuid = int

definition uuid4 :: "int \<Rightarrow> uuid" where
  "uuid4 raw =
     (((raw AND NOT (push_bit 48 0xc000)) OR push_bit 48 0x8000)
        AND NOT (push_bit 64 0xf000)) OR push_bit 76 4"

definition hexdigit :: "nat \<Rightarrow> char" where
  "hexdigit n = ''0123456789abcdef'' ! (n mod 16)"

text \<open>The value of a hexadecimal digit, the inverse of \<open>hexdigit\<close> below 16.\<close>

definition hexval :: "char \<Rightarrow> nat" where
  "hexval c = (let n = (of_char c :: nat) in if n \<le> 57 then n - 48 else n - 87)"

text \<open>The format \<^verbatim>\<open>%x\<close>, then \<^verbatim>\<open>%032x\<close>, which pads with zeros on the left.\<close>

fun hex :: "nat \<Rightarrow> string" where
  "hex n = (if n < 16 then [hexdigit n] else hex (n div 16) @ [hexdigit (n mod 16)])"

declare hex.simps [simp del]

definition hex32 :: "uuid \<Rightarrow> string" where
  "hex32 u = (let h = hex (nat u) in replicate (32 - length h) CHR ''0'' @ h)"

text \<open>The number a string of hexadecimal digits denotes.\<close>

definition hexvalue :: "string \<Rightarrow> nat" where
  "hexvalue s = foldl (\<lambda>a c. 16 * a + hexval c) 0 s"

definition str_uuid :: "uuid \<Rightarrow> string" where
  "str_uuid u =
     (let hex = hex32 u
      in take 8 hex @ ''-'' @ take 4 (drop 8 hex) @ ''-'' @ take 4 (drop 12 hex) @ ''-''
           @ take 4 (drop 16 hex) @ ''-'' @ drop 20 hex)"

text \<open>
  The random draws are an input of the model. What makes the identifiers globally
  unique is that the operating system's random source does not deliver the same UUID
  twice; this is the contract of \<^verbatim>\<open>uuid4\<close>, and it is part of the type of the source:
  a source is a sequence of non-negative integers no two of which give the same UUID.
  So that a source can go on forever, its draws are not limited to 16 bytes.
\<close>

typedef entropy = "{f :: nat \<Rightarrow> int. (\<forall>n. 0 \<le> f n) \<and> inj (\<lambda>n. uuid4 (f n))}"
proof
  let ?f = "\<lambda>n. push_bit 80 (int n)"
  have not: "drop_bit 80 (NOT k) = NOT (drop_bit 80 k)" for k :: int
    by (rule bit_eqI) (simp add: bit_simps)
  have high: "drop_bit 80 (uuid4 raw) = drop_bit 80 raw" for raw
    by (simp add: uuid4_def not drop_bit_push_bit)
  have "inj (\<lambda>n. uuid4 (?f n))"
  proof (rule injI)
    fix x y assume "uuid4 (?f x) = uuid4 (?f y)"
    then have "drop_bit 80 (uuid4 (?f x)) = drop_bit 80 (uuid4 (?f y))"
      by (rule arg_cong)
    then show "x = y"
      by (simp add: high drop_bit_push_bit)
  qed
  then show "?f \<in> {f :: nat \<Rightarrow> int. (\<forall>n. 0 \<le> f n) \<and> inj (\<lambda>n. uuid4 (f n))}"
    by simp
qed

setup_lifting type_definition_entropy

text \<open>
  A source for examples: its draw number \<open>n\<close> is \<open>n\<close> shifted left by 80 bits, above the
  bits that \<open>uuid4\<close> overwrites.
\<close>

lift_definition counting :: entropy is "\<lambda>n. push_bit 80 (int n)"
proof (intro conjI allI)
  fix n :: nat
  show "0 \<le> push_bit 80 (int n)"
    by simp
next
  have not: "drop_bit 80 (NOT k) = NOT (drop_bit 80 k)" for k :: int
    by (rule bit_eqI) (simp add: bit_simps)
  have high: "drop_bit 80 (uuid4 raw) = drop_bit 80 raw" for raw
    by (simp add: uuid4_def not drop_bit_push_bit)
  show "inj (\<lambda>n. uuid4 (push_bit 80 (int n)))"
  proof (rule injI)
    fix x y assume "uuid4 (push_bit 80 (int x)) = uuid4 (push_bit 80 (int y))"
    then have "drop_bit 80 (uuid4 (push_bit 80 (int x)))
        = drop_bit 80 (uuid4 (push_bit 80 (int y)))"
      by (rule arg_cong)
    then show "x = y"
      by (simp add: high drop_bit_push_bit)
  qed
qed

section \<open>The conversation memory store (\<^verbatim>\<open>SessionMemoryManager\<close>)\<close>

text \<open>
  \<^verbatim>\<open>
  class SessionMemoryManager:
      def __init__(self, llm):
          self.llm = llm
          self.sessions: dict[str, TokenMemory] = {}

      def get_or_create(self, session_id: str | None) -> tuple[str, TokenMemory]:
          if not session_id:
              session_id = str(uuid.uuid4())
          if session_id not in self.sessions:
              self.sessions[session_id] = TokenMemory(self.llm)
          return session_id, self.sessions[session_id]
  \<close>
  The dictionary holds references to \<^verbatim>\<open>TokenMemory\<close> objects, and the specification
  speaks of object identity, so the model has an explicit object store: a reference is an
  index into \<open>heap\<close>, and \<^verbatim>\<open>TokenMemory(self.llm)\<close> allocates the next index with an empty
  message list. \<open>urandom\<close> is the random source and \<open>drawn\<close> the number of draws made so
  far. \<open>agent_memory\<close> is the \<^verbatim>\<open>memory\<close> attribute of the single agent object kept in
  \<^verbatim>\<open>app.state.agent\<close>.
\<close>

type_synonym ref = nat

record 'm world =
  sessions :: "string \<rightharpoonup> ref"
  heap :: "'m list list"
  urandom :: entropy
  drawn :: nat
  agent_memory :: "ref option"

definition init_world :: "entropy \<Rightarrow> 'm world" where
  "init_world rnd =
     \<lparr>sessions = Map.empty, heap = [], urandom = rnd, drawn = 0, agent_memory = None\<rparr>"

text \<open>The store at start-up, with the source \<open>counting\<close>.\<close>

definition world0 :: "unit world" where
  "world0 = init_world counting"

text \<open>Python's truth value of a \<^verbatim>\<open>str | None\<close>: \<^verbatim>\<open>None\<close> and \<^verbatim>\<open>""\<close> are false.\<close>

fun truthy :: "string option \<Rightarrow> bool" where
  "truthy None = False"
| "truthy (Some s) = (s \<noteq> [])"

definition next_uuid :: "'m world \<Rightarrow> string" where
  "next_uuid w = str_uuid (uuid4 (Rep_entropy (urandom w) (drawn w)))"

definition fresh_session_id :: "'m world \<Rightarrow> string \<times> 'm world" where
  "fresh_session_id w = (next_uuid w, w\<lparr>drawn := Suc (drawn w)\<rparr>)"

definition new_token_memory :: "'m world \<Rightarrow> string \<Rightarrow> ref \<times> 'm world" where
  "new_token_memory w sid =
     (let r = length (heap w)
      in (r, w\<lparr>sessions := (sessions w)(sid \<mapsto> r), heap := heap w @ [[]]\<rparr>))"

definition get_or_create :: "string option \<Rightarrow> 'm world \<Rightarrow> (string \<times> ref) \<times> 'm world" where
  "get_or_create session_id w =
     (let (sid, w1) = (case session_id of
                         Some s \<Rightarrow> if truthy session_id then (s, w) else fresh_session_id w
                       | None \<Rightarrow> fresh_session_id w)
      in case sessions w1 sid of
           None \<Rightarrow> (let (r, w2) = new_token_memory w1 sid in ((sid, r), w2))
         | Some r \<Rightarrow> ((sid, r), w1))"

text \<open>
  The states the store can be in. \<open>get_or_create\<close> is the only code that changes the
  dictionary, and the executor rewrites the turns of a memory it was given; a state is
  reached from start-up by any sequence of such steps. \<open>store_ok\<close> is the invariant of
  the data model: no two sessions share a memory, and every session's memory exists.
\<close>

datatype 'm action = Call "string option" | Write ref "'m list"

fun step :: "'m world \<Rightarrow> 'm action \<Rightarrow> 'm world" where
  "step w (Call session_id) = snd (get_or_create session_id w)"
| "step w (Write r turns) = w\<lparr>heap := (heap w)[r := turns]\<rparr>"

definition run :: "'m action list \<Rightarrow> 'm world \<Rightarrow> 'm world" where
  "run steps w = foldl step w steps"


section \<open>The event collector (\<^verbatim>\<open>create_event_collector\<close>)\<close>

text \<open>
  \<^verbatim>\<open>
  def create_event_collector(event_list: list[AgentEvent]):
      def capture_event(data: Any, event: EventMeta):
          if event.name == "update":
              event_list.append(AgentEvent(type="update", key=data.update.key,
                                           message=str(data.update.parsed_value)))
          elif event.name == "error":
              event_list.append(AgentEvent(type="error",
                                           message=FrameworkError.ensure(data.error).explain()))
          elif event.name == "retry":
              event_list.append(AgentEvent(type="retry", message="retrying the action..."))
          elif event.name == "start":
              event_list.append(AgentEvent(type="start", message="starting new iteration"))
          elif event.name == "success":
              event_list.append(AgentEvent(type="success", message="success"))
      return capture_event
  \<close>
  An emission of the executor is the pair \<^verbatim>\<open>(data, event)\<close>; the record below holds
  \<^verbatim>\<open>event.name\<close> and the three attributes of \<^verbatim>\<open>data\<close> that the collector reads.
  \<^verbatim>\<open>str\<close>, \<^verbatim>\<open>FrameworkError.ensure\<close> and \<^verbatim>\<open>explain\<close> belong to the agent framework and are
  parameters of the model. Exceptions are \<^verbatim>\<open>FrameworkError\<close>, any other subclass of
  \<^verbatim>\<open>Exception\<close> (with its \<^verbatim>\<open>str\<close>), or a \<^verbatim>\<open>BaseException\<close> outside \<^verbatim>\<open>Exception\<close>.
\<close>

datatype 'f py_exception = FrameworkError 'f | Exception string | BaseException string

record ('v, 'f) framework =
  str_value :: "'v \<Rightarrow> string"
  ensure :: "'f py_exception \<Rightarrow> 'f"
  explain :: "'f \<Rightarrow> string"

record ('v, 'f) emission =
  name :: string
  update_key :: string
  update_parsed_value :: 'v
  data_error :: "'f py_exception"

record agent_event =
  type :: string
  message :: string
  key :: "string option"

definition capture_event ::
  "('v, 'f) framework \<Rightarrow> agent_event list \<Rightarrow> ('v, 'f) emission \<Rightarrow> agent_event list" where
  "capture_event fw event_list e =
     (if name e = ''update'' then
        event_list @ [\<lparr>type = ''update'',
                        message = str_value fw (update_parsed_value e),
                        key = Some (update_key e)\<rparr>]
      else if name e = ''error'' then
        event_list @ [\<lparr>type = ''error'',
                        message = explain fw (ensure fw (data_error e)),
                        key = None\<rparr>]
      else if name e = ''retry'' then
        event_list @ [\<lparr>type = ''retry'', message = ''retrying the action...'', key = None\<rparr>]
      else if name e = ''start'' then
        event_list @ [\<lparr>type = ''start'', message = ''starting new iteration'', key = None\<rparr>]
      else if name e = ''success'' then
        event_list @ [\<lparr>type = ''success'', message = ''success'', key = None\<rparr>]
      else event_list)"

text \<open>The collector called once per emission, in emission order, on an initially empty list.\<close>

definition collect :: "('v, 'f) framework \<Rightarrow> ('v, 'f) emission list \<Rightarrow> agent_event list" where
  "collect fw es = foldl (capture_event fw) [] es"

text \<open>
  The mapping table of the specification, row by row: the record an emission is
  projected to, or \<open>None\<close> for an unrecognised kind.
\<close>

definition recognised :: "string \<Rightarrow> bool" where
  "recognised n = (n \<in> set [''update'', ''error'', ''retry'', ''start'', ''success''])"

definition spec_project :: "('v, 'f) framework \<Rightarrow> ('v, 'f) emission \<rightharpoonup> agent_event" where
  "spec_project fw e =
     (if name e = ''update'' then
        Some \<lparr>type = ''update'', message = str_value fw (update_parsed_value e),
              key = Some (update_key e)\<rparr>
      else if name e = ''error'' then
        Some \<lparr>type = ''error'', message = explain fw (ensure fw (data_error e)), key = None\<rparr>
      else if name e = ''retry'' then
        Some \<lparr>type = ''retry'', message = ''retrying the action...'', key = None\<rparr>
      else if name e = ''start'' then
        Some \<lparr>type = ''start'', message = ''starting new iteration'', key = None\<rparr>
      else if name e = ''success'' then
        Some \<lparr>type = ''success'', message = ''success'', key = None\<rparr>
      else None)"

section \<open>The buffered endpoint (\<^verbatim>\<open>chat_endpoint\<close>)\<close>

text \<open>
  \<^verbatim>\<open>
  session_id, memory = memory_manager.get_or_create(req.session_id)
  agent.memory = memory
  collected_events: list[AgentEvent] = []
  capture_event = create_event_collector(collected_events)
  try:
      response = await agent.run(prompt=req.prompt, execution=AgentExecutionConfig(
              max_retries_per_step=3, total_max_retries=10, max_iterations=20,
          )).on("*", capture_event, EmitterOptions(match_nested=False))
      return ChatResponse(response=response.result.text, session_id=session_id,
                          events=collected_events)
  except FrameworkError as e:
      return ChatResponse(response=f"Agent error: {e.explain()}", session_id=session_id,
                          events=collected_events)
  except Exception as ex:
      return ChatResponse(response=f"Agent error: {str(ex)}", session_id=session_id,
                          events=collected_events)
  \<close>
  The executor (\<^verbatim>\<open>ReActAgent.run\<close>) is a library of the agent framework; it is a
  parameter of the model. One run is given the prompt, the reference of the bound
  memory, the object store and the execution budget, and yields the emissions it made,
  in order, up to its end, the store it leaves behind, and either the final text or the
  exception it raised.
\<close>

record agent_execution_config =
  max_retries_per_step :: int
  total_max_retries :: int
  max_iterations :: int

datatype 'f outcome = Result string | Raised "'f py_exception"

record ('m, 'v, 'f) run =
  emitted :: "('v, 'f) emission list"
  heap_after :: "'m list list"
  outcome :: "'f outcome"

type_synonym ('m, 'v, 'f) executor =
  "string \<Rightarrow> ref \<Rightarrow> 'm list list \<Rightarrow> agent_execution_config \<Rightarrow> ('m, 'v, 'f) run"

record chat_request =
  prompt :: string
  req_session_id :: "string option"

record chat_response =
  response :: string
  session_id :: string
  events :: "agent_event list"

definition execution_budget :: agent_execution_config where
  "execution_budget = \<lparr>max_retries_per_step = 3, total_max_retries = 10, max_iterations = 20\<rparr>"

definition chat_endpoint ::
  "('v, 'f) framework \<Rightarrow> ('m, 'v, 'f) executor \<Rightarrow> chat_request \<Rightarrow> 'm world
     \<Rightarrow> ('f py_exception + chat_response) \<times> 'm world" where
  "chat_endpoint fw agent_run req w =
     (let ((sid, memory), w1) = get_or_create (req_session_id req) w;
          w2 = w1\<lparr>agent_memory := Some memory\<rparr>;
          r = agent_run (prompt req) memory (heap w2) execution_budget;
          w3 = w2\<lparr>heap := heap_after r\<rparr>;
          collected_events = collect fw (emitted r)
      in case outcome r of
           Result text \<Rightarrow>
             (Inr \<lparr>response = text, session_id = sid, events = collected_events\<rparr>, w3)
         | Raised (FrameworkError e) \<Rightarrow>
             (Inr \<lparr>response = ''Agent error: '' @ explain fw e, session_id = sid,
                   events = collected_events\<rparr>, w3)
         | Raised (Exception ex) \<Rightarrow>
             (Inr \<lparr>response = ''Agent error: '' @ ex, session_id = sid,
                   events = collected_events\<rparr>, w3)
         | Raised (BaseException b) \<Rightarrow> (Inl (BaseException b), w3))"

section \<open>The query tool (\<^verbatim>\<open>BigQueryTool\<close>)\<close>

text \<open>
  \<^verbatim>\<open>
  def is_read_only_query(self, query: str):
      normalized_query = query.strip().upper()
      return normalized_query.startswith("SELECT") or normalized_query.startswith("SHOW") \
          or normalized_query.startswith("DESC")
  \<close>
  The check inspects characters, so the strings of this tool are what Python's are:
  lists of Unicode code points. \<open>ascii\<close> turns a literal into such a list.
\<close>

type_synonym str = "nat list"

definition ascii :: "string \<Rightarrow> str" where
  "ascii s = map of_char s"

text \<open>
  \<^verbatim>\<open>str.strip()\<close> removes the characters of which \<^verbatim>\<open>str.isspace\<close> holds: the 29 white space
  code points of the Unicode character database.
\<close>

definition isspace :: "nat \<Rightarrow> bool" where
  "isspace c =
     ((9 \<le> c \<and> c \<le> 13) \<or> (28 \<le> c \<and> c \<le> 32) \<or> c = 133 \<or> c = 160 \<or> c = 5760
      \<or> (8192 \<le> c \<and> c \<le> 8202) \<or> c = 8232 \<or> c = 8233 \<or> c = 8239 \<or> c = 8287
      \<or> c = 12288)"

definition lstrip :: "str \<Rightarrow> str" where
  "lstrip s = dropWhile isspace s"

definition rstrip :: "str \<Rightarrow> str" where
  "rstrip s = rev (dropWhile isspace (rev s))"

definition strip :: "str \<Rightarrow> str" where
  "strip s = rstrip (lstrip s)"

text \<open>
  \<^verbatim>\<open>str.upper()\<close> replaces every code point by its full upper-case mapping (Unicode 14.0, as
  in CPython 3.11) and concatenates the results. \<open>special_casing\<close> lists the code points
  whose mapping has more than one code point, such as 223 (sharp s), which becomes
  \<^verbatim>\<open>SS\<close>. \<open>case_runs\<close> lists the other mappings above 127 as runs \<open>(lo, hi, stride, d)\<close>: every
  code point \<open>lo\<close>, \<open>lo + stride\<close>, \<open>\<dots>\<close> up to \<open>hi\<close> is mapped to itself plus \<open>d\<close>, and the
  first run that contains a code point decides. Below 128, \<^verbatim>\<open>a\<close> to \<^verbatim>\<open>z\<close> become \<^verbatim>\<open>A\<close> to \<^verbatim>\<open>Z\<close>.
\<close>

definition special_casing :: "(nat \<times> nat list) list" where
  "special_casing =
    [(223, [83, 83]), (329, [700, 78]), (496, [74, 780]), (912, [921, 776, 769]),
     (944, [933, 776, 769]), (1415, [1333, 1362]), (7830, [72, 817]), (7831, [84, 776]),
     (7832, [87, 778]), (7833, [89, 778]), (7834, [65, 702]), (8016, [933, 787]),
     (8018, [933, 787, 768]), (8020, [933, 787, 769]), (8022, [933, 787, 834]),
     (8064, [7944, 921]), (8065, [7945, 921]), (8066, [7946, 921]), (8067, [7947, 921]),
     (8068, [7948, 921]), (8069, [7949, 921]), (8070, [7950, 921]), (8071, [7951, 921]),
     (8072, [7944, 921]), (8073, [7945, 921]), (8074, [7946, 921]), (8075, [7947, 921]),
     (8076, [7948, 921]), (8077, [7949, 921]), (8078, [7950, 921]), (8079, [7951, 921]),
     (8080, [7976, 921]), (8081, [7977, 921]), (8082, [7978, 921]), (8083, [7979, 921]),
     (8084, [7980, 921]), (8085, [7981, 921]), (8086, [7982, 921]), (8087, [7983, 921]),
     (8088, [7976, 921]), (8089, [7977, 921]), (8090, [7978, 921]), (8091, [7979, 921]),
     (8092, [7980, 921]), (8093, [7981, 921]), (8094, [7982, 921]), (8095, [7983, 921]),
     (8096, [8040, 921]), (8097, [8041, 921]), (8098, [8042, 921]), (8099, [8043, 921]),
     (8100, [8044, 921]), (8101, [8045, 921]), (8102, [8046, 921]), (8103, [8047, 921]),
     (8104, [8040, 921]), (8105, [8041, 921]), (8106, [8042, 921]), (8107, [8043, 921]),
     (8108, [8044, 921]), (8109, [8045, 921]), (8110, [8046, 921]), (8111, [8047, 921]),
     (8114, [8122, 921]), (8115, [913, 921]), (8116, [902, 921]), (8118, [913, 834]),
     (8119, [913, 834, 921]), (8124, [913, 921]), (8130, [8138, 921]), (8131, [919, 921]),
     (8132, [905, 921]), (8134, [919, 834]), (8135, [919, 834, 921]), (8140, [919, 921]),
     (8146, [921, 776, 768]), (8147, [921, 776, 769]), (8150, [921, 834]),
     (8151, [921, 776, 834]), (8162, [933, 776, 768]), (8163, [933, 776, 769]),
     (8164, [929, 787]), (8166, [933, 834]), (8167, [933, 776, 834]), (8178, [8186, 921]),
     (8179, [937, 921]), (8180, [911, 921]), (8182, [937, 834]), (8183, [937, 834, 921]),
     (8188, [937, 921]), (64256, [70, 70]), (64257, [70, 73]), (64258, [70, 76]),
     (64259, [70, 70, 73]), (64260, [70, 70, 76]), (64261, [83, 84]), (64262, [83, 84]),
     (64275, [1348, 1350]), (64276, [1348, 1333]), (64277, [1348, 1339]),
     (64278, [1358, 1350]), (64279, [1348, 1341])]"

definition case_runs :: "(nat \<times> nat \<times> nat \<times> int) list" where
  "case_runs =
    [(181, 181, 1, 743), (224, 246, 1, - 32), (248, 254, 1, - 32), (255, 255, 1, 121),
     (257, 303, 2, - 1), (305, 305, 1, - 232), (307, 311, 2, - 1), (314, 328, 2, - 1),
     (331, 375, 2, - 1), (378, 382, 2, - 1), (383, 383, 1, - 300), (384, 384, 1, 195),
     (387, 389, 2, - 1), (392, 392, 1, - 1), (396, 396, 1, - 1), (402, 402, 1, - 1),
     (405, 405, 1, 97), (409, 409, 1, - 1), (410, 410, 1, 163), (414, 414, 1, 130),
     (417, 421, 2, - 1), (424, 424, 1, - 1), (429, 429, 1, - 1), (432, 432, 1, - 1),
     (436, 438, 2, - 1), (441, 441, 1, - 1), (445, 445, 1, - 1), (447, 447, 1, 56),
     (453, 453, 1, - 1), (454, 454, 1, - 2), (456, 456, 1, - 1), (457, 457, 1, - 2),
     (459, 459, 1, - 1), (460, 460, 1, - 2), (462, 476, 2, - 1), (477, 477, 1, - 79),
     (479, 495, 2, - 1), (498, 498, 1, - 1), (499, 499, 1, - 2), (501, 501, 1, - 1),
     (505, 543, 2, - 1), (547, 563, 2, - 1), (572, 572, 1, - 1), (575, 576, 1, 10815),
     (578, 578, 1, - 1), (583, 591, 2, - 1), (592, 592, 1, 10783), (593, 593, 1, 10780),
     (594, 594, 1, 10782), (595, 595, 1, - 210), (596, 596, 1, - 206), (598, 599, 1, - 205),
     (601, 601, 1, - 202), (603, 603, 1, - 203), (604, 604, 1, 42319), (608, 608, 1, - 205),
     (609, 609, 1, 42315), (611, 611, 1, - 207), (613, 613, 1, 42280), (614, 614, 1, 42308),
     (616, 616, 1, - 209), (617, 617, 1, - 211), (618, 618, 1, 42308), (619, 619, 1, 10743),
     (620, 620, 1, 42305), (623, 623, 1, - 211), (625, 625, 1, 10749), (626, 626, 1, - 213),
     (629, 629, 1, - 214), (637, 637, 1, 10727), (640, 640, 1, - 218), (642, 642, 1, 42307),
     (643, 643, 1, - 218), (647, 647, 1, 42282), (648, 648, 1, - 218), (649, 649, 1, - 69),
     (650, 651, 1, - 217), (652, 652, 1, - 71), (658, 658, 1, - 219), (669, 669, 1, 42261),
     (670, 670, 1, 42258), (837, 837, 1, 84), (881, 883, 2, - 1), (887, 887, 1, - 1),
     (891, 893, 1, 130), (940, 940, 1, - 38), (941, 943, 1, - 37), (945, 961, 1, - 32),
     (962, 962, 1, - 31), (963, 971, 1, - 32), (972, 972, 1, - 64), (973, 974, 1, - 63),
     (976, 976, 1, - 62), (977, 977, 1, - 57), (981, 981, 1, - 47), (982, 982, 1, - 54),
     (983, 983, 1, - 8), (985, 1007, 2, - 1), (1008, 1008, 1, - 86), (1009, 1009, 1, - 80),
     (1010, 1010, 1, 7), (1011, 1011, 1, - 116), (1013, 1013, 1, - 96),
     (1016, 1016, 1, - 1), (1019, 1019, 1, - 1), (1072, 1103, 1, - 32),
     (1104, 1119, 1, - 80), (1121, 1153, 2, - 1), (1163, 1215, 2, - 1),
     (1218, 1230, 2, - 1), (1231, 1231, 1, - 15), (1233, 1327, 2, - 1),
     (1377, 1414, 1, - 48), (4304, 4346, 1, 3008), (4349, 4351, 1, 3008),
     (5112, 5117, 1, - 8), (7296, 7296, 1, - 6254), (7297, 7297, 1, - 6253),
     (7298, 7298, 1, - 6244), (7299, 7300, 1, - 6242), (7301, 7301, 1, - 6243),
     (7302, 7302, 1, - 6236), (7303, 7303, 1, - 6181), (7304, 7304, 1, 35266),
     (7545, 7545, 1, 35332), (7549, 7549, 1, 3814), (7566, 7566, 1, 35384),
     (7681, 7829, 2, - 1), (7835, 7835, 1, - 59), (7841, 7935, 2, - 1), (7936, 7943, 1, 8),
     (7952, 7957, 1, 8), (7968, 7975, 1, 8), (7984, 7991, 1, 8), (8000, 8005, 1, 8),
     (8017, 8023, 2, 8), (8032, 8039, 1, 8), (8048, 8049, 1, 74), (8050, 8053, 1, 86),
     (8054, 8055, 1, 100), (8056, 8057, 1, 128), (8058, 8059, 1, 112), (8060, 8061, 1, 126),
     (8112, 8113, 1, 8), (8126, 8126, 1, - 7205), (8144, 8145, 1, 8), (8160, 8161, 1, 8),
     (8165, 8165, 1, 7), (8526, 8526, 1, - 28), (8560, 8575, 1, - 16), (8580, 8580, 1, - 1),
     (9424, 9449, 1, - 26), (11312, 11359, 1, - 48), (11361, 11361, 1, - 1),
     (11365, 11365, 1, - 10795), (11366, 11366, 1, - 10792), (11368, 11372, 2, - 1),
     (11379, 11379, 1, - 1), (11382, 11382, 1, - 1), (11393, 11491, 2, - 1),
     (11500, 11502, 2, - 1), (11507, 11507, 1, - 1), (11520, 11557, 1, - 7264),
     (11559, 11559, 1, - 7264), (11565, 11565, 1, - 7264), (42561, 42605, 2, - 1),
     (42625, 42651, 2, - 1), (42787, 42799, 2, - 1), (42803, 42863, 2, - 1),
     (42874, 42876, 2, - 1), (42879, 42887, 2, - 1), (42892, 42892, 1, - 1),
     (42897, 42899, 2, - 1), (42900, 42900, 1, 48), (42903, 42921, 2, - 1),
     (42933, 42947, 2, - 1), (42952, 42954, 2, - 1), (42961, 42961, 1, - 1),
     (42967, 42969, 2, - 1), (42998, 42998, 1, - 1), (43859, 43859, 1, - 928),
     (43888, 43967, 1, - 38864), (65345, 65370, 1, - 32), (66600, 66639, 1, - 40),
     (66776, 66811, 1, - 40), (66967, 67003, 2, - 39), (66968, 66977, 1, - 39),
     (66980, 66993, 1, - 39), (66996, 67001, 1, - 39), (67004, 67004, 1, - 39),
     (68800, 68850, 1, - 64), (71872, 71903, 1, - 32), (93792, 93823, 1, - 32),
     (125218, 125251, 1, - 34)]"

definition in_run :: "nat \<Rightarrow> nat \<times> nat \<times> nat \<times> int \<Rightarrow> bool" where
  "in_run c r = (case r of (lo, hi, stride, d) \<Rightarrow> lo \<le> c \<and> c \<le> hi \<and> (c - lo) mod stride = 0)"

definition upper_cp :: "nat \<Rightarrow> nat list" where
  "upper_cp c =
     (if 97 \<le> c \<and> c \<le> 122 then [c - 32]
      else if c < 128 then [c]
      else case map_of special_casing c of
             Some cs \<Rightarrow> cs
           | None \<Rightarrow> (case find (in_run c) case_runs of
                        Some (lo, hi, stride, d) \<Rightarrow> [nat (int c + d)]
                      | None \<Rightarrow> [c]))"

definition upper :: "str \<Rightarrow> str" where
  "upper s = concat (map upper_cp s)"

definition startswith :: "str \<Rightarrow> str \<Rightarrow> bool" where
  "startswith s p = (take (length p) s = p)"

definition is_read_only_query :: "str \<Rightarrow> bool" where
  "is_read_only_query query =
     (let normalized_query = upper (strip query)
      in startswith normalized_query (ascii ''SELECT'')
         \<or> startswith normalized_query (ascii ''SHOW'')
         \<or> startswith normalized_query (ascii ''DESC''))"

text \<open>
  The specification's wording of the same check: a prefix test that ignores leading
  white space and letter case. \<open>begins_ci p s\<close>: \<open>s\<close>, in upper case, begins with the
  keyword \<open>p\<close>.
\<close>

definition begins_ci :: "str \<Rightarrow> str \<Rightarrow> bool" where
  "begins_ci p s = prefix p (upper s)"

fun skip_space :: "str \<Rightarrow> str" where
  "skip_space [] = []"
| "skip_space (c # cs) = (if isspace c then skip_space cs else c # cs)"

definition spec_read_only :: "str \<Rightarrow> bool" where
  "spec_read_only query =
     (begins_ci (ascii ''SELECT'') (skip_space query)
      \<or> begins_ci (ascii ''SHOW'') (skip_space query)
      \<or> begins_ci (ascii ''DESC'') (skip_space query))"

text \<open>
  \<^verbatim>\<open>
  def execute_query(self, query: str, engine, project: str = my_project_id):
      if not self.is_read_only_query(query):
          return JSONToolOutput(result={"success": False,
                     "error": "Invalid query. Only SELECT queries are allowed."})
      try:
          job_config = bigquery.QueryJobConfig()
          results = engine.query_and_wait(query, job_config=job_config,
                                          project=project).to_dataframe()
          results = results.to_dict('records')
          if len(results) > 0:
              return JSONToolOutput(result={"success": True, "results": results})
          else:
              return JSONToolOutput(result={"success": False, "error": "No rows selected"})
      except Exception as e:
          raise Exception(f"Generate a correct query that retrieves data using the "
                          f"appropriate dialect. The original request was: {query}, "
                          f"and the error was: {e}")
  \<close>
  The backend is a parameter: \<open>answer\<close> gives, for a query and a project, either the
  text of the exception the client raises or the rows of the result; \<open>sent\<close> is the log
  of the queries that reached the backend. A result dictionary is a record whose absent
  keys are \<open>None\<close>. \<open>ToolException\<close> is the \<^verbatim>\<open>Exception\<close> the tool raises, with its message.
\<close>

record 'row engine =
  answer :: "str \<Rightarrow> string option \<Rightarrow> str + 'row list"
  sent :: "str list"

record 'r tool_output =
  success :: bool
  error :: "str option"
  results :: "'r option"

datatype tool_exception = ToolException str

definition query_and_wait ::
  "'row engine \<Rightarrow> str \<Rightarrow> string option \<Rightarrow> (str + 'row list) \<times> 'row engine" where
  "query_and_wait eng query project = (answer eng query project, eng\<lparr>sent := sent eng @ [query]\<rparr>)"

definition execute_query ::
  "str \<Rightarrow> 'row engine \<Rightarrow> string option
     \<Rightarrow> (tool_exception + 'row list tool_output) \<times> 'row engine" where
  "execute_query query eng project =
     (if \<not> is_read_only_query query then
        (Inr \<lparr>success = False,
              error = Some (ascii ''Invalid query. Only SELECT queries are allowed.''),
              results = None\<rparr>, eng)
      else
        case query_and_wait eng query project of
          (Inl e, eng') \<Rightarrow>
            (Inl (ToolException
               (ascii ''Generate a correct query that retrieves data using the appropriate dialect. ''
                @ ascii ''The original request was: '' @ query
                @ ascii '', and the error was: '' @ e)), eng')
        | (Inr rows, eng') \<Rightarrow>
            if length rows > 0 then
              (Inr \<lparr>success = True, error = None, results = Some rows\<rparr>, eng')
            else
              (Inr \<lparr>success = False, error = Some (ascii ''No rows selected''),
                    results = None\<rparr>, eng'))"

section \<open>The fiscal week tool (\<^verbatim>\<open>FiscalWeekTool\<close>)\<close>

text \<open>
  \<^verbatim>\<open>
  def to_fiscalweekid(self, d: datetime.date):
      fy =  d.year + 1 if d.month > 6 else d.year
      week = self.get_aus_financial_year_week(d)
      result = str(fy) + str(week)
      return JSONToolOutput(result={"success": True, "results": result})

  def get_aus_financial_year_week(self, date):
      if date.month >= 7:
          fy_start = datetime.date(date.year, 7, 1)
      else:
          fy_start = datetime.date(date.year - 1, 7, 1)
      delta_days = (date - fy_start).days
      week_number = delta_days // 7 + 1
      return f"{week_number:02d}"
  \<close>
  \<^verbatim>\<open>datetime.date\<close> is the proleptic Gregorian calendar of the standard library: the
  constructor raises \<^verbatim>\<open>ValueError\<close> outside the years 1 to 9999, and the difference of two
  dates is the difference of their ordinals.
\<close>

record date =
  year :: int
  month :: int
  day :: int

definition is_leap :: "int \<Rightarrow> bool" where
  "is_leap y = (y mod 4 = 0 \<and> (y mod 100 \<noteq> 0 \<or> y mod 400 = 0))"

definition days_in_month :: "int \<Rightarrow> int \<Rightarrow> int" where
  "days_in_month y m =
     (if m = 2 then (if is_leap y then 29 else 28)
      else if m = 4 \<or> m = 6 \<or> m = 9 \<or> m = 11 then 30 else 31)"

definition days_before_year :: "int \<Rightarrow> int" where
  "days_before_year y = (y - 1) * 365 + (y - 1) div 4 - (y - 1) div 100 + (y - 1) div 400"

definition days_before_month :: "int \<Rightarrow> int \<Rightarrow> int" where
  "days_before_month y m =
     [0, 0, 31, 59, 90, 120, 151, 181, 212, 243, 273, 304, 334] ! nat m
       + (if m > 2 \<and> is_leap y then 1 else 0)"

definition valid_date :: "date \<Rightarrow> bool" where
  "valid_date d =
     (1 \<le> year d \<and> year d \<le> 9999 \<and> 1 \<le> month d \<and> month d \<le> 12
      \<and> 1 \<le> day d \<and> day d \<le> days_in_month (year d) (month d))"

datatype py_error = ValueError

definition date_new :: "int \<Rightarrow> int \<Rightarrow> int \<Rightarrow> py_error + date" where
  "date_new y m d =
     (let r = \<lparr>year = y, month = m, day = d\<rparr> in if valid_date r then Inr r else Inl ValueError)"

definition toordinal :: "date \<Rightarrow> int" where
  "toordinal d = days_before_year (year d) + days_before_month (year d) (month d) + day d"

fun str_nat :: "nat \<Rightarrow> string" where
  "str_nat n = (if n < 10 then [char_of (48 + n)] else str_nat (n div 10) @ [char_of (48 + n mod 10)])"

declare str_nat.simps [simp del]

definition str_int :: "int \<Rightarrow> string" where
  "str_int i = (if i < 0 then CHR ''-'' # str_nat (nat (- i)) else str_nat (nat i))"

text \<open>The format \<^verbatim>\<open>02d\<close>: at least two characters, padded with zeros after the sign.\<close>

definition format_02d :: "int \<Rightarrow> string" where
  "format_02d i = (let s = str_int i in if length s < 2 then CHR ''0'' # s else s)"

text \<open>
  The first day of the financial year a date lies in, as the two branches of
  \<^verbatim>\<open>get_aus_financial_year_week\<close> construct it; \<open>week_number\<close> below is the integer that
  function formats.
\<close>

definition financial_year_start :: "date \<Rightarrow> date" where
  "financial_year_start d = \<lparr>year = (if month d \<ge> 7 then year d else year d - 1), month = 7, day = 1\<rparr>"

definition week_number :: "date \<Rightarrow> py_error + int" where
  "week_number d =
     (case (if month d \<ge> 7 then date_new (year d) 7 1 else date_new (year d - 1) 7 1) of
        Inl e \<Rightarrow> Inl e
      | Inr fy_start \<Rightarrow>
          (let delta_days = toordinal d - toordinal fy_start
           in Inr (delta_days div 7 + 1)))"

definition get_aus_financial_year_week :: "date \<Rightarrow> py_error + string" where
  "get_aus_financial_year_week d = map_sum id format_02d (week_number d)"

definition fiscal_year :: "date \<Rightarrow> int" where
  "fiscal_year d = (if month d > 6 then year d + 1 else year d)"

definition to_fiscalweekid :: "date \<Rightarrow> py_error + string tool_output" where
  "to_fiscalweekid d =
     (let fy = fiscal_year d
      in case get_aus_financial_year_week d of
           Inl e \<Rightarrow> Inl e
         | Inr week \<Rightarrow>
             Inr \<lparr>success = True, error = None, results = Some (str_int fy @ week)\<rparr>)"

section \<open>Example inputs\<close>

text \<open>
  A framework whose values and errors are strings, an emission of a given kind, and two
  executors: one that emits three events and then raises a generic exception, one that
  does so with a framework error. They serve as concrete inputs below.
\<close>

fun ensure0 :: "string py_exception \<Rightarrow> string" where
  "ensure0 (FrameworkError f) = f"
| "ensure0 (Exception s) = s"
| "ensure0 (BaseException s) = s"

definition framework0 :: "(string, string) framework" where
  "framework0 = \<lparr>str_value = id, ensure = ensure0, explain = id\<rparr>"

definition emit0 :: "string \<Rightarrow> (string, string) emission" where
  "emit0 n = \<lparr>name = n, update_key = ''thought'', update_parsed_value = ''hm'',
              data_error = Exception ''bad output''\<rparr>"

definition failing_executor :: "string py_exception \<Rightarrow> (unit, string, string) executor" where
  "failing_executor ex p m h b =
     \<lparr>emitted = [emit0 ''start'', emit0 ''partial_update'', emit0 ''error''],
      heap_after = h, outcome = Raised ex\<rparr>"

definition hello :: chat_request where
  "hello = \<lparr>prompt = ''hello'', req_session_id = None\<rparr>"

text \<open>A backend that answers every query with an empty table and has received nothing yet.\<close>

definition empty_backend :: "string engine" where
  "empty_backend = \<lparr>answer = (\<lambda>query project. Inr []), sent = []\<rparr>"


section \<open>Properties of the session identifiers\<close>

lemma uuid4_nonneg: "0 \<le> raw \<Longrightarrow> 0 \<le> uuid4 raw"
  by (simp add: uuid4_def)

lemma length_hex32: "32 \<le> length (hex32 u)"
  by (simp add: hex32_def Let_def)

lemma length_str_uuid: "36 \<le> length (str_uuid u)"
  using length_hex32 [of u] by (simp add: str_uuid_def Let_def)

lemma hexval_hexdigit: "a < 16 \<Longrightarrow> hexval (hexdigit a) = a"
proof -
  assume "a < 16"
  then have "a \<in> {0,1,2,3,4,5,6,7,8,9,10,11,12,13,14,15}"
    by (simp only: insert_iff empty_iff) arith
  then show ?thesis
    by (auto simp: hexdigit_def hexval_def Let_def)
qed

lemma hexvalue_snoc: "hexvalue (s @ [c]) = 16 * hexvalue s + hexval c"
  by (simp add: hexvalue_def)

lemma hexvalue_hex: "hexvalue (hex n) = n"
proof (induction n rule: hex.induct)
  case (1 n)
  show ?case
  proof (cases "n < 16")
    case True
    then show ?thesis
      by (simp add: hex.simps [of n] hexvalue_def hexval_hexdigit)
  next
    case False
    with 1 have "hexvalue (hex (n div 16)) = n div 16" by simp
    then show ?thesis
      using False by (simp add: hex.simps [of n] hexvalue_snoc hexval_hexdigit)
  qed
qed

lemma hexvalue_zeros: "hexvalue (replicate k CHR ''0'' @ s) = hexvalue s"
proof -
  have "foldl (\<lambda>a c. 16 * a + hexval c) 0 (replicate k CHR ''0'') = 0"
    by (induction k) (simp_all add: hexval_def)
  then show ?thesis
    by (simp add: hexvalue_def)
qed

lemma hexvalue_hex32: "hexvalue (hex32 u) = nat u"
  by (simp add: hex32_def Let_def hexvalue_zeros hexvalue_hex)

lemma drop_step:
  assumes "take k (drop n xs) = take k (drop n ys)" and "drop (n + k) xs = drop (n + k) ys"
  shows "drop n xs = drop n ys"
proof -
  have "drop n xs = take k (drop n xs) @ drop k (drop n xs)"
    by (simp only: append_take_drop_id)
  also have "\<dots> = take k (drop n ys) @ drop k (drop n ys)"
    using assms by (simp add: add.commute)
  also have "\<dots> = drop n ys"
    by (simp only: append_take_drop_id)
  finally show ?thesis .
qed

lemma str_uuid_hex32:
  assumes "str_uuid u = str_uuid v" shows "hex32 u = hex32 v"
proof -
  define h g where "h = hex32 u" and "g = hex32 v"
  have lh: "32 \<le> length h" and lg: "32 \<le> length g"
    by (simp_all add: h_def g_def length_hex32)
  from assms lh lg
  have parts: "take 8 h = take 8 g" "take 4 (drop 8 h) = take 4 (drop 8 g)"
      "take 4 (drop 12 h) = take 4 (drop 12 g)" "take 4 (drop 16 h) = take 4 (drop 16 g)"
      "drop 20 h = drop 20 g"
    by (simp_all add: str_uuid_def Let_def h_def [symmetric] g_def [symmetric])
  have "drop 16 h = drop 16 g" using parts(4,5) by (intro drop_step [of 4 16]) simp_all
  then have "drop 12 h = drop 12 g" using parts(3) by (intro drop_step [of 4 12]) simp_all
  then have "drop 8 h = drop 8 g" using parts(2) by (intro drop_step [of 4 8]) simp_all
  then have "drop 0 h = drop 0 g" using parts(1) by (intro drop_step [of 8 0]) simp_all
  then show ?thesis by (simp add: h_def g_def)
qed

lemma str_uuid_inj:
  assumes "0 \<le> u" and "0 \<le> v" and "str_uuid u = str_uuid v"
  shows "u = v"
proof -
  from assms(3) have "hex32 u = hex32 v"
    by (rule str_uuid_hex32)
  then have "hexvalue (hex32 u) = hexvalue (hex32 v)"
    by (rule arg_cong)
  then have "nat u = nat v"
    by (simp only: hexvalue_hex32)
  with assms(1,2) show ?thesis by simp
qed


lemma replicate_numeral_zero:
  "replicate (numeral k) x = x # replicate (pred_numeral k) x"
  by (simp add: numeral_eq_Suc)

lemma next_uuid_nonempty: "next_uuid w \<noteq> []"
  using length_str_uuid [of "uuid4 (Rep_entropy (urandom w) (drawn w))"]
  by (auto simp: next_uuid_def)

lemma entropy_nonneg: "0 \<le> Rep_entropy e n"
  using Rep_entropy [of e] by simp

lemma entropy_inj: "uuid4 (Rep_entropy e i) = uuid4 (Rep_entropy e j) \<Longrightarrow> i = j"
  using Rep_entropy [of e] by (auto dest: injD)

text \<open>Two draws from one source give two different identifiers.\<close>

lemma next_uuid_distinct:
  assumes "urandom w = urandom w'" and "drawn w \<noteq> drawn w'"
  shows "next_uuid w \<noteq> next_uuid w'"
proof
  assume "next_uuid w = next_uuid w'"
  then have "uuid4 (Rep_entropy (urandom w) (drawn w)) = uuid4 (Rep_entropy (urandom w) (drawn w'))"
    unfolding next_uuid_def assms(1) [symmetric]
    by (intro str_uuid_inj uuid4_nonneg entropy_nonneg)
  then have "drawn w = drawn w'"
    by (rule entropy_inj)
  with assms(2) show False by simp
qed

lemmas uuid_eval = next_uuid_def counting.rep_eq uuid4_def str_uuid_def hex32_def hex.simps
  Let_def hexdigit_def replicate_numeral_zero

lemma next_uuid_world0: "next_uuid world0 = ''00000000-0000-4000-8000-000000000000''"
  by (simp add: world0_def init_world_def uuid_eval)

text \<open>
  The draws of \<^verbatim>\<open>os.urandom(16)\<close> are below \<open>2\<^sup>1\<^sup>2\<^sup>8\<close>. For such a draw the identifier has
  exactly 36 characters, and every finite run of such draws that gives no UUID twice is
  the beginning of a source.
\<close>

lemma drop_bit_uuid4: "drop_bit 80 (uuid4 raw) = drop_bit 80 raw"
proof -
  have "drop_bit 80 (NOT k) = NOT (drop_bit 80 k)" for k :: int
    by (rule bit_eqI) (simp add: bit_simps)
  then show ?thesis
    by (simp add: uuid4_def drop_bit_push_bit)
qed

lemma drop_bit_128_uuid4: "drop_bit 128 (uuid4 raw) = drop_bit 128 raw"
proof -
  have "drop_bit 128 (uuid4 raw) = drop_bit 48 (drop_bit 80 (uuid4 raw))"
    by (simp add: drop_bit_drop_bit)
  also have "\<dots> = drop_bit 48 (drop_bit 80 raw)"
    by (simp only: drop_bit_uuid4)
  also have "\<dots> = drop_bit 128 raw"
    by (simp add: drop_bit_drop_bit)
  finally show ?thesis .
qed

lemma drop_bit_128_zero:
  fixes x :: int
  assumes "0 \<le> x"
  shows "drop_bit 128 x = 0 \<longleftrightarrow> x < 2 ^ 128"
  using assms by (auto simp add: drop_bit_eq_div zdiv_eq_0_iff)

lemma uuid4_16_bytes:
  assumes "0 \<le> raw" and "raw < 2 ^ 128"
  shows "uuid4 raw < 2 ^ 128"
proof -
  from assms have "drop_bit 128 raw = 0"
    by (simp only: drop_bit_128_zero)
  then have "drop_bit 128 (uuid4 raw) = 0"
    by (simp only: drop_bit_128_uuid4)
  moreover from assms(1) have "0 \<le> uuid4 raw"
    by (rule uuid4_nonneg)
  ultimately show ?thesis
    by (simp only: drop_bit_128_zero)
qed

lemma length_hex: "0 < k \<Longrightarrow> n < 16 ^ k \<Longrightarrow> length (hex n) \<le> k"
proof (induction n arbitrary: k rule: hex.induct)
  case (1 n)
  show ?case
  proof (cases "n < 16")
    case True
    with 1(2) show ?thesis by (simp add: hex.simps [of n])
  next
    case False
    with 1(3) have "1 < k"
      by (cases "k = 1") (use 1(2) in simp_all)
    then obtain j where k: "k = Suc j" and j: "0 < j"
      by (cases k) simp_all
    from 1(3) have "n div 16 < 16 ^ j"
      by (simp add: k less_mult_imp_div_less mult.commute)
    from 1(1) [OF False j this] show ?thesis
      using False by (simp add: hex.simps [of n] k)
  qed
qed

lemma length_str_uuid_16_bytes:
  assumes "0 \<le> raw" and "raw < 2 ^ 128"
  shows "length (str_uuid (uuid4 raw)) = 36"
proof -
  from assms have "uuid4 raw < 2 ^ 128"
    by (rule uuid4_16_bytes)
  moreover from assms(1) have "0 \<le> uuid4 raw"
    by (rule uuid4_nonneg)
  ultimately
  have "nat (uuid4 raw) < 16 ^ 32"
    by (simp add: nat_less_iff)
  then have "length (hex (nat (uuid4 raw))) \<le> 32"
    by (intro length_hex) simp_all
  then have "length (hex32 (uuid4 raw)) = 32"
    by (simp add: hex32_def Let_def)
  then show ?thesis
    by (simp add: str_uuid_def Let_def)
qed

lemma entropy_extends:
  assumes d: "distinct (map uuid4 xs)" and b: "\<forall>x \<in> set xs. 0 \<le> x \<and> x < 2 ^ 128"
  shows "\<exists>src. \<forall>i < length xs. Rep_entropy src i = xs ! i"
proof -
  define f where "f n = (if n < length xs then xs ! n else push_bit 128 (int n + 1))" for n
  have small: "drop_bit 128 (uuid4 (f n)) = 0" if "n < length xs" for n
  proof -
    from that b have "0 \<le> xs ! n" and "xs ! n < 2 ^ 128"
      by simp_all
    then have "drop_bit 128 (xs ! n) = 0"
      by (simp only: drop_bit_128_zero)
    with that show ?thesis
      by (simp only: drop_bit_128_uuid4 f_def if_True)
  qed
  have large: "drop_bit 128 (uuid4 (f n)) = int n + 1" if "\<not> n < length xs" for n
    using that by (simp add: drop_bit_128_uuid4 f_def drop_bit_push_bit)
  have "inj (\<lambda>n. uuid4 (f n))"
  proof (rule injI)
    fix x y assume e: "uuid4 (f x) = uuid4 (f y)"
    then have e': "drop_bit 128 (uuid4 (f x)) = drop_bit 128 (uuid4 (f y))"
      by (rule arg_cong)
    show "x = y"
    proof (cases "x < length xs")
      case x: True
      show ?thesis
      proof (cases "y < length xs")
        case True
        with x e have "map uuid4 xs ! x = map uuid4 xs ! y"
          by (simp add: f_def)
        moreover from x True have "x < length (map uuid4 xs)" "y < length (map uuid4 xs)"
          by simp_all
        ultimately show ?thesis
          using d by (simp only: nth_eq_iff_index_eq)
      next
        case False
        with x e' show ?thesis
          by (simp add: small large)
      qed
    next
      case x: False
      show ?thesis
      proof (cases "y < length xs")
        case True
        with x e' show ?thesis
          by (simp add: small large)
      next
        case False
        with x e' show ?thesis
          by (simp add: large)
      qed
    qed
  qed
  moreover have "0 \<le> f n" for n
    using b by (simp add: f_def)
  ultimately have "Rep_entropy (Abs_entropy f) = f"
    by (intro Abs_entropy_inverse) simp
  then have "\<forall>i < length xs. Rep_entropy (Abs_entropy f) i = xs ! i"
    by (simp add: f_def)
  then show ?thesis ..
qed

section \<open>Properties of the memory store\<close>

lemma get_or_create_falsy:
  "\<not> truthy sid \<Longrightarrow> get_or_create sid w = get_or_create None w"
  by (cases sid) (simp_all add: get_or_create_def)

lemma get_or_create_fresh:
  "sessions w (next_uuid w) = None \<Longrightarrow>
   get_or_create None w =
     ((next_uuid w, length (heap w)),
      w\<lparr>sessions := (sessions w)(next_uuid w \<mapsto> length (heap w)),
        heap := heap w @ [[]], drawn := Suc (drawn w)\<rparr>)"
  by (simp add: get_or_create_def fresh_session_id_def new_token_memory_def Let_def)

lemma get_or_create_fresh_known:
  "sessions w (next_uuid w) = Some r \<Longrightarrow>
   get_or_create None w = ((next_uuid w, r), w\<lparr>drawn := Suc (drawn w)\<rparr>)"
  by (simp add: get_or_create_def fresh_session_id_def)

lemma get_or_create_new:
  "s \<noteq> [] \<Longrightarrow> sessions w s = None \<Longrightarrow>
   get_or_create (Some s) w =
     ((s, length (heap w)),
      w\<lparr>sessions := (sessions w)(s \<mapsto> length (heap w)), heap := heap w @ [[]]\<rparr>)"
  by (simp add: get_or_create_def new_token_memory_def Let_def)

lemma get_or_create_known:
  "s \<noteq> [] \<Longrightarrow> sessions w s = Some r \<Longrightarrow> get_or_create (Some s) w = ((s, r), w)"
  by (simp add: get_or_create_def)

text \<open>
  The empty string never becomes a key, whatever the argument: with \<open>init_world\<close>, whose
  store is empty, this makes it an invariant of every reachable state.
\<close>

lemma get_or_create_no_empty_key:
  assumes "[] \<notin> dom (sessions w)"
  shows "[] \<notin> dom (sessions (snd (get_or_create sid w)))"
proof (cases "truthy sid")
  case True
  then obtain s where s: "sid = Some s" "s \<noteq> []"
    by (cases sid) auto
  show ?thesis
  proof (cases "sessions w s")
    case None
    with s assms show ?thesis by (simp add: get_or_create_new domIff)
  next
    case (Some r)
    with s assms show ?thesis by (simp add: get_or_create_known)
  qed
next
  case False
  then have e: "get_or_create sid w = get_or_create None w"
    by (rule get_or_create_falsy)
  have ne: "next_uuid w \<noteq> []"
    by (rule next_uuid_nonempty)
  show ?thesis
  proof (cases "sessions w (next_uuid w)")
    case None
    show ?thesis
      unfolding e get_or_create_fresh [OF None] using ne assms by (simp add: domIff)
  next
    case (Some r)
    show ?thesis
      unfolding e get_or_create_fresh_known [OF Some] using assms by simp
  qed
qed












text \<open>
  C6 (as amended). For every non-empty session identifier \<open>s\<close> that is a key of the
  store, \<open>get_or_create\<close> returns the stored memory object and leaves the whole state,
  and so every memory, as it was. For a non-empty \<open>s\<close> that is not yet a key, the first
  call returns an empty memory and an immediately following call with the same \<open>s\<close>
  returns that same object and changes nothing.
\<close>

theorem get_or_create_known_session:
  fixes w :: "'m world"
  shows
  "(s \<noteq> [] \<and> sessions w s = Some r \<longrightarrow> get_or_create (Some s) w = ((s, r), w))
   \<and> (s \<noteq> [] \<and> s \<notin> dom (sessions w) \<longrightarrow>
        (case get_or_create (Some s) w of ((s1, m1), w1) \<Rightarrow>
           s1 = s \<and> heap w1 ! m1 = [] \<and> get_or_create (Some s) w1 = ((s, m1), w1)))"
proof (intro conjI impI)
  assume "s \<noteq> [] \<and> sessions w s = Some r"
  then show "get_or_create (Some s) w = ((s, r), w)"
    by (simp add: get_or_create_known)
next
  let ?w1 = "w\<lparr>sessions := (sessions w)(s \<mapsto> length (heap w)), heap := heap w @ [[]]\<rparr>"
  assume "s \<noteq> [] \<and> s \<notin> dom (sessions w)"
  then have s: "s \<noteq> []" and n: "sessions w s = None"
    by (simp_all add: domIff)
  have first: "get_or_create (Some s) w = ((s, length (heap w)), ?w1)"
    using s n by (rule get_or_create_new)
  have "sessions ?w1 s = Some (length (heap w))"
    by simp
  with s have "get_or_create (Some s) ?w1 = ((s, length (heap w)), ?w1)"
    by (rule get_or_create_known)
  then show "case get_or_create (Some s) w of ((s1, m1), w1) \<Rightarrow>
           s1 = s \<and> heap w1 ! m1 = [] \<and> get_or_create (Some s) w1 = ((s, m1), w1)"
    unfolding first by simp
qed

text \<open>Both cases of the theorem at the identifier \<^verbatim>\<open>abc\<close>, before and after its first use.\<close>

theorem get_or_create_known_session_witness:
  "(''abc'' \<noteq> [] \<and> ''abc'' \<notin> dom (sessions world0))
   \<and> (case get_or_create (Some ''abc'') world0 of ((s1, m1), w1) \<Rightarrow>
         s1 = ''abc'' \<and> heap w1 ! m1 = [] \<and> get_or_create (Some ''abc'') w1 = ((''abc'', m1), w1)
         \<and> (''abc'' \<noteq> [] \<and> sessions w1 ''abc'' = Some 0))"
proof -
  have dom0: "dom (sessions world0) = {}"
    by (simp add: world0_def init_world_def)
  have first: "get_or_create (Some ''abc'') world0
      = ((''abc'', 0), world0\<lparr>sessions := (sessions world0)(''abc'' \<mapsto> 0), heap := [[]]\<rparr>)"
    by (simp add: world0_def init_world_def get_or_create_def new_token_memory_def Let_def)
  show ?thesis
    using get_or_create_known_session [of "''abc''" world0 0] dom0
      get_or_create_known_session
        [of "''abc''" "world0\<lparr>sessions := (sessions world0)(''abc'' \<mapsto> 0), heap := [[]]\<rparr>" 0]
    by (simp add: first)
qed

text \<open>
  The claim as first stated fails at the empty string, which is never a key: two
  successive calls with it return two different memory objects.
\<close>

theorem get_or_create_known_session_counterexample:
  "'''' \<notin> dom (sessions world0)
   \<and> snd (fst (get_or_create (Some '''') world0))
       \<noteq> snd (fst (get_or_create (Some '''') (snd (get_or_create (Some '''') world0))))"
proof -
  let ?w1 = "world0\<lparr>sessions := (sessions world0)(next_uuid world0 \<mapsto> length (heap world0)),
        heap := heap world0 @ [[]], drawn := Suc (drawn world0)\<rparr>"
  have e: "get_or_create (Some '''') w = get_or_create None w" for w :: "'m world"
    by (rule get_or_create_falsy) simp
  have empty: "sessions world0 = Map.empty" and h0: "heap world0 = []"
    by (simp_all add: world0_def init_world_def)
  from empty have "sessions world0 (next_uuid world0) = None"
    by simp
  then have first: "get_or_create None world0 = ((next_uuid world0, length (heap world0)), ?w1)"
    by (rule get_or_create_fresh)
  have "next_uuid ?w1 \<noteq> next_uuid world0"
    by (rule next_uuid_distinct) simp_all
  then have "sessions ?w1 (next_uuid ?w1) = None"
    by (simp add: empty)
  from get_or_create_fresh [OF this]
  have second: "snd (fst (get_or_create None ?w1)) = length (heap ?w1)"
    by simp
  show ?thesis
    unfolding e first snd_conv fst_conv second by (simp add: empty h0)
qed




section \<open>Properties of the event collector\<close>

lemma capture_event_append:
  "capture_event fw acc e = acc @ (case spec_project fw e of None \<Rightarrow> [] | Some a \<Rightarrow> [a])"
  by (simp add: capture_event_def spec_project_def)

lemma foldl_capture_event:
  "foldl (capture_event fw) acc es = acc @ List.map_filter (spec_project fw) es"
proof (induction es arbitrary: acc)
  case Nil
  show ?case by simp
next
  case (Cons e es)
  have "foldl (capture_event fw) acc (e # es)
      = foldl (capture_event fw) (capture_event fw acc e) es"
    by simp
  also have "\<dots> = capture_event fw acc e @ List.map_filter (spec_project fw) es"
    by (rule Cons.IH)
  also have "\<dots> = acc @ List.map_filter (spec_project fw) (e # es)"
    unfolding capture_event_append [of fw acc e] by (cases "spec_project fw e") simp_all
  finally show ?case .
qed

lemma type_spec_project:
  "spec_project fw e = Some a \<Longrightarrow> type a = name e \<and> recognised (name e)"
  by (auto simp: spec_project_def recognised_def split: if_splits)

lemma spec_project_None: "spec_project fw e = None \<Longrightarrow> \<not> recognised (name e)"
  by (auto simp: spec_project_def recognised_def split: if_splits)

lemma types_map_filter:
  "map type (List.map_filter (spec_project fw) es) = filter recognised (map name es)"
proof (induction es)
  case Nil
  show ?case by simp
next
  case (Cons e es)
  show ?case
  proof (cases "spec_project fw e")
    case None
    then show ?thesis
      using Cons.IH spec_project_None [OF None] by simp
  next
    case (Some a)
    then show ?thesis
      using Cons.IH type_spec_project [OF Some] by simp
  qed
qed

lemma length_map_filter_le: "length (List.map_filter f xs) \<le> length xs"
  by (induction xs) (auto split: option.splits)

text \<open>
  C2. Fed a finite sequence of emissions in order, the collector's list is exactly the
  order-preserving filter-map of the input by the specification's table
  (\<open>spec_project\<close>: \<^verbatim>\<open>update\<close> with key and rendered value, \<^verbatim>\<open>error\<close> with the explanation,
  \<^verbatim>\<open>retry\<close>, \<^verbatim>\<open>start\<close> and \<^verbatim>\<open>success\<close> with their fixed texts, nothing for any other
  name). Hence the output is no longer than the input, and its types are the recognised
  names of the input, in the same order and with the same repetitions.
\<close>

theorem collect_filter_map:
  "collect fw es = List.map_filter (spec_project fw) es
   \<and> foldl (capture_event fw) acc es = acc @ List.map_filter (spec_project fw) es
   \<and> length (collect fw es) \<le> length es
   \<and> map type (collect fw es) = filter recognised (map name es)
   \<and> subseq (map type (collect fw es)) (map name es)"
proof -
  have c: "collect fw es = List.map_filter (spec_project fw) es"
    by (simp add: collect_def foldl_capture_event)
  have t: "map type (collect fw es) = filter recognised (map name es)"
    by (simp add: c types_map_filter)
  show ?thesis
    by (simp add: c [symmetric] t foldl_capture_event length_map_filter_le
          del: filter_map) (simp add: c length_map_filter_le)
qed

text \<open>The collector on six emissions, one of them of an unrecognised kind.\<close>

theorem collect_filter_map_witness:
  "collect framework0
     [emit0 ''start'', emit0 ''update'', emit0 ''tool_start'', emit0 ''retry'',
      emit0 ''error'', emit0 ''success'']
   = [\<lparr>type = ''start'', message = ''starting new iteration'', key = None\<rparr>,
      \<lparr>type = ''update'', message = ''hm'', key = Some ''thought''\<rparr>,
      \<lparr>type = ''retry'', message = ''retrying the action...'', key = None\<rparr>,
      \<lparr>type = ''error'', message = ''bad output'', key = None\<rparr>,
      \<lparr>type = ''success'', message = ''success'', key = None\<rparr>]"
  using collect_filter_map [of framework0
     "[emit0 ''start'', emit0 ''update'', emit0 ''tool_start'', emit0 ''retry'',
       emit0 ''error'', emit0 ''success'']" "[]", THEN conjunct1]
  by (simp add: spec_project_def emit0_def framework0_def)

section \<open>Properties of the buffered endpoint\<close>

lemma chat_endpoint_unfold:
  assumes "get_or_create (req_session_id req) w = ((sid, m), w1)"
  shows "chat_endpoint fw agent_run req w =
     (let r = agent_run (prompt req) m (heap w1) execution_budget;
          w3 = w1\<lparr>agent_memory := Some m, heap := heap_after r\<rparr>;
          collected_events = collect fw (emitted r)
      in case outcome r of
           Result text \<Rightarrow>
             (Inr \<lparr>response = text, session_id = sid, events = collected_events\<rparr>, w3)
         | Raised (FrameworkError e) \<Rightarrow>
             (Inr \<lparr>response = ''Agent error: '' @ explain fw e, session_id = sid,
                   events = collected_events\<rparr>, w3)
         | Raised (Exception ex) \<Rightarrow>
             (Inr \<lparr>response = ''Agent error: '' @ ex, session_id = sid,
                   events = collected_events\<rparr>, w3)
         | Raised (BaseException b) \<Rightarrow> (Inl (BaseException b), w3))"
  by (simp add: chat_endpoint_def assms Let_def split: outcome.split py_exception.split)

text \<open>
  The endpoint always hands the executor the budget of 3 retries per step, 10 retries in
  total and 20 iterations: its result depends on the executor only through the run
  under that budget.
\<close>

lemma chat_endpoint_budget:
  assumes "\<And>p m h. run1 p m h \<lparr>max_retries_per_step = 3, total_max_retries = 10,
                                  max_iterations = 20\<rparr>
                   = run2 p m h \<lparr>max_retries_per_step = 3, total_max_retries = 10,
                                  max_iterations = 20\<rparr>"
  shows "chat_endpoint fw run1 req w = chat_endpoint fw run2 req w"
  by (simp add: chat_endpoint_def execution_budget_def assms Let_def split: prod.split)

text \<open>
  C3. Let the session resolve to the identifier \<open>sid\<close> and the memory \<open>m\<close>, and let the
  executor's run on the request raise. If it raises a framework error, or any other
  exception of class \<^verbatim>\<open>Exception\<close>, the endpoint raises nothing: it returns a response
  whose text is \<^verbatim>\<open>Agent error: \<close> followed by the explanation of the error (\<^verbatim>\<open>explain()\<close>,
  respectively \<^verbatim>\<open>str\<close>), whose session identifier is \<open>sid\<close>, and whose events are exactly
  those collected from the emissions made before the failure.
\<close>

theorem chat_endpoint_catches:
  assumes "get_or_create (req_session_id req) w = ((sid, m), w1)"
    and "agent_run (prompt req) m (heap w1) execution_budget = r"
  shows "(outcome r = Raised (FrameworkError e) \<longrightarrow>
            fst (chat_endpoint fw agent_run req w) =
              Inr \<lparr>response = ''Agent error: '' @ explain fw e, session_id = sid,
                    events = collect fw (emitted r)\<rparr>)
       \<and> (outcome r = Raised (Exception msg) \<longrightarrow>
            fst (chat_endpoint fw agent_run req w) =
              Inr \<lparr>response = ''Agent error: '' @ msg, session_id = sid,
                    events = collect fw (emitted r)\<rparr>)"
  by (simp add: chat_endpoint_unfold [OF assms(1)] assms(2) Let_def)

text \<open>
  The two \<^verbatim>\<open>except\<close> clauses cover the class \<^verbatim>\<open>Exception\<close> only: an exception outside
  it (a cancellation, a keyboard interrupt) leaves the endpoint.
\<close>

lemma chat_endpoint_base_exception:
  assumes "get_or_create (req_session_id req) w = ((sid, m), w1)"
    and "outcome (agent_run (prompt req) m (heap w1) execution_budget) = Raised (BaseException b)"
  shows "fst (chat_endpoint fw agent_run req w) = Inl (BaseException b)"
  by (simp add: chat_endpoint_unfold [OF assms(1)] assms(2) Let_def)

lemma hello_session:
  "get_or_create (req_session_id hello) world0 =
     ((''00000000-0000-4000-8000-000000000000'', 0),
      world0\<lparr>sessions := (sessions world0)(''00000000-0000-4000-8000-000000000000'' \<mapsto> 0),
        heap := [[]], drawn := 1\<rparr>)"
proof -
  have u: "next_uuid world0 = ''00000000-0000-4000-8000-000000000000''"
    by (rule next_uuid_world0)
  have "sessions world0 (next_uuid world0) = None"
    by (simp add: world0_def init_world_def)
  from get_or_create_fresh [OF this] show ?thesis
    by (simp add: u hello_def) (simp add: world0_def init_world_def)
qed

text \<open>
  The request \<^verbatim>\<open>{"prompt": "hello"}\<close> at start-up, with an executor that raises a generic
  exception, and with one that raises a framework error.
\<close>

theorem chat_endpoint_catches_witness:
  "fst (chat_endpoint framework0 (failing_executor (Exception ''boom'')) hello world0) =
     Inr \<lparr>response = ''Agent error: boom'',
           session_id = ''00000000-0000-4000-8000-000000000000'',
           events = [\<lparr>type = ''start'', message = ''starting new iteration'', key = None\<rparr>,
                     \<lparr>type = ''error'', message = ''bad output'', key = None\<rparr>]\<rparr>
   \<and> fst (chat_endpoint framework0 (failing_executor (FrameworkError ''no answer'')) hello world0) =
     Inr \<lparr>response = ''Agent error: no answer'',
           session_id = ''00000000-0000-4000-8000-000000000000'',
           events = [\<lparr>type = ''start'', message = ''starting new iteration'', key = None\<rparr>,
                     \<lparr>type = ''error'', message = ''bad output'', key = None\<rparr>]\<rparr>"
proof -
  have ev: "collect framework0 [emit0 ''start'', emit0 ''partial_update'', emit0 ''error'']
      = [\<lparr>type = ''start'', message = ''starting new iteration'', key = None\<rparr>,
         \<lparr>type = ''error'', message = ''bad output'', key = None\<rparr>]"
    by (simp add: collect_def capture_event_def emit0_def framework0_def)
  have r1: "failing_executor (Exception ''boom'') (prompt hello) 0
       (heap (world0\<lparr>sessions := (sessions world0)(''00000000-0000-4000-8000-000000000000'' \<mapsto> 0),
        heap := [[]], drawn := 1\<rparr>)) execution_budget
     = \<lparr>emitted = [emit0 ''start'', emit0 ''partial_update'', emit0 ''error''],
        heap_after = [[]], outcome = Raised (Exception ''boom'')\<rparr>"
    by (simp add: failing_executor_def)
  have r2: "failing_executor (FrameworkError ''no answer'') (prompt hello) 0
       (heap (world0\<lparr>sessions := (sessions world0)(''00000000-0000-4000-8000-000000000000'' \<mapsto> 0),
        heap := [[]], drawn := 1\<rparr>)) execution_budget
     = \<lparr>emitted = [emit0 ''start'', emit0 ''partial_update'', emit0 ''error''],
        heap_after = [[]], outcome = Raised (FrameworkError ''no answer'')\<rparr>"
    by (simp add: failing_executor_def)
  show ?thesis
    using
      chat_endpoint_catches [where agent_run = "failing_executor (Exception ''boom'')"
        and req = hello and w = world0 and fw = framework0 and msg = "''boom''"
        and e = "''no answer''", OF hello_session r1]
      chat_endpoint_catches [where agent_run = "failing_executor (FrameworkError ''no answer'')"
        and req = hello and w = world0 and fw = framework0 and msg = "''boom''"
        and e = "''no answer''", OF hello_session r2]
    by (simp add: ev) (simp add: framework0_def)
qed


section \<open>Properties of the query tool\<close>

lemma case_runs_gaps:
  "list_all (\<lambda>(lo, hi, stride, d). 160 < lo \<and> (hi < 5760 \<or> 5760 < lo) \<and> (hi < 8192 \<or> 8287 < lo)
      \<and> (hi < 12288 \<or> 12288 < lo)) case_runs"
  by (simp add: case_runs_def)

lemma special_casing_gaps:
  "list_all (\<lambda>(k, cs). 160 < k \<and> k \<noteq> 5760 \<and> (k < 8192 \<or> 8287 < k) \<and> k \<noteq> 12288) special_casing"
  by (simp add: special_casing_def)

lemma upper_cp_ascii: "c < 128 \<Longrightarrow> upper_cp c = (if 97 \<le> c \<and> c \<le> 122 then [c - 32] else [c])"
  by (simp add: upper_cp_def)

lemma upper_cp_gap:
  assumes "c \<le> 160 \<or> c = 5760 \<or> (8192 \<le> c \<and> c \<le> 8287) \<or> c = 12288" and "128 \<le> c"
  shows "upper_cp c = [c]"
proof -
  have "\<forall>r \<in> set case_runs. \<not> in_run c r"
    using case_runs_gaps assms(1) unfolding list_all_iff in_run_def by fastforce
  then have f: "find (in_run c) case_runs = None"
    by (simp add: find_None_iff)
  have "\<forall>p \<in> set special_casing. fst p \<noteq> c"
    using special_casing_gaps assms(1) unfolding list_all_iff by fastforce
  then have "c \<notin> fst ` set special_casing"
    by auto
  then have m: "map_of special_casing c = None"
    by (simp add: map_of_eq_None_iff)
  show ?thesis
    using assms(2) by (simp add: upper_cp_def f m)
qed

lemma upper_cp_space:
  assumes "isspace c" shows "upper_cp c = [c]"
proof (cases "c < 128")
  case True
  with assms show ?thesis
    unfolding isspace_def by (auto simp: upper_cp_ascii)
next
  case False
  with assms have "c \<le> 160 \<or> c = 5760 \<or> (8192 \<le> c \<and> c \<le> 8287) \<or> c = 12288"
    unfolding isspace_def by linarith
  with False show ?thesis
    by (intro upper_cp_gap) simp_all
qed

lemma upper_append: "upper (xs @ ys) = upper xs @ upper ys"
  by (simp add: upper_def)

lemma upper_spaces: "\<forall>c \<in> set ws. isspace c \<Longrightarrow> upper ws = ws"
  by (induction ws) (simp_all add: upper_def upper_cp_space)

lemma skip_space_lstrip: "skip_space s = lstrip s"
  by (induction s) (simp_all add: lstrip_def)

lemma startswith_prefix: "startswith s p = prefix p s"
proof
  assume "startswith s p"
  then have "s = p @ drop (length p) s"
    by (metis append_take_drop_id startswith_def)
  then show "prefix p s"
    by (metis prefixI)
next
  assume "prefix p s"
  then show "startswith s p"
    by (auto simp: startswith_def prefix_def)
qed

lemma rstrip_decomp: "\<exists>ws. s = rstrip s @ ws \<and> (\<forall>c \<in> set ws. isspace c)"
proof (intro exI conjI)
  have "rstrip s @ rev (takeWhile isspace (rev s))
      = rev (takeWhile isspace (rev s) @ dropWhile isspace (rev s))"
    by (simp only: rstrip_def rev_append)
  also have "\<dots> = s"
    by (simp only: takeWhile_dropWhile_id rev_rev_ident)
  finally show "s = rstrip s @ rev (takeWhile isspace (rev s))"
    by (rule sym)
  show "\<forall>c \<in> set (rev (takeWhile isspace (rev s))). isspace c"
    by (auto dest: set_takeWhileD)
qed

lemma prefix_before_spaces:
  assumes "p \<noteq> []" and "\<not> isspace (last p)" and "\<forall>c \<in> set ws. isspace c"
  shows "prefix p (xs @ ws) = prefix p xs"
proof
  assume "prefix p (xs @ ws)"
  then consider "prefix p xs" | us where "p = xs @ us" "prefix us ws"
    by (auto simp: prefix_append)
  then show "prefix p xs"
  proof cases
    case 1
    then show ?thesis .
  next
    case 2
    show ?thesis
    proof (cases "us = []")
      case True
      with 2 show ?thesis by simp
    next
      case False
      with 2 have "last p = last us" by simp
      moreover from False have "last us \<in> set us" by simp
      moreover from 2(2) have "set us \<subseteq> set ws" by (rule set_mono_prefix)
      ultimately have "isspace (last p)" using assms(3) by auto
      with assms(2) show ?thesis by simp
    qed
  qed
next
  assume "prefix p xs"
  then show "prefix p (xs @ ws)" by (rule prefix_prefix)
qed

lemma startswith_rstrip:
  assumes "p \<noteq> []" and "\<not> isspace (last p)"
  shows "startswith (upper (rstrip t)) p = startswith (upper t) p"
proof -
  obtain ws where t: "t = rstrip t @ ws" and ws: "\<forall>c \<in> set ws. isspace c"
    using rstrip_decomp by blast
  have "upper t = upper (rstrip t) @ upper ws"
    by (subst t) (rule upper_append)
  also have "upper ws = ws"
    using ws by (rule upper_spaces)
  finally have "prefix p (upper t) = prefix p (upper (rstrip t))"
    using prefix_before_spaces [OF assms ws] by simp
  then show ?thesis
    by (simp add: startswith_prefix)
qed

lemma last_keywords:
  "\<not> isspace (last (ascii ''SELECT''))" "\<not> isspace (last (ascii ''SHOW''))"
  "\<not> isspace (last (ascii ''DESC''))"
  by (simp_all add: ascii_def isspace_def)

lemma is_read_only_query_spec: "is_read_only_query q = spec_read_only q"
proof -
  have "startswith (upper (strip q)) p = begins_ci p (skip_space q)"
    if "p \<noteq> []" and "\<not> isspace (last p)" for p
    using startswith_rstrip [OF that, of "lstrip q"]
    by (simp add: strip_def skip_space_lstrip begins_ci_def startswith_prefix)
  then show ?thesis
    using last_keywords
    by (simp add: is_read_only_query_def spec_read_only_def Let_def ascii_def)
qed

lemmas query_eval = is_read_only_query_def strip_def lstrip_def rstrip_def isspace_def upper_def
  upper_cp_ascii ascii_def startswith_def Let_def

lemma drop_table_rejected: "\<not> is_read_only_query (ascii ''DROP TABLE x'')"
  by (simp add: query_eval)

lemma select_accepted: "is_read_only_query (ascii ''  select * from t'')"
  by (simp add: query_eval)

lemma compound_accepted: "is_read_only_query (ascii ''SELECT 1; DROP TABLE x'')"
  by (simp add: query_eval)

lemma upper_cp_long_s: "upper_cp 383 = [83]"
  by (simp add: upper_cp_def special_casing_def case_runs_def in_run_def)

text \<open>
  Beyond ASCII: a no-break space (code point 160) before the keyword is stripped, and
  the long s (code point 383) is an S in upper case, so both queries are accepted.
\<close>

lemma unicode_accepted:
  "is_read_only_query (160 # ascii ''select 1'')"
  "is_read_only_query (383 # ascii ''elect 1'')"
  by (simp_all add: query_eval upper_cp_long_s)


lemma execute_query_refused:
  "\<not> is_read_only_query q \<Longrightarrow>
   execute_query q eng project =
     (Inr \<lparr>success = False,
           error = Some (ascii ''Invalid query. Only SELECT queries are allowed.''),
           results = None\<rparr>, eng)"
  by (simp add: execute_query_def)

lemma execute_query_forwarded:
  "is_read_only_query q \<Longrightarrow>
   execute_query q eng project =
     (case answer eng q project of
        Inl e \<Rightarrow>
          (Inl (ToolException
             (ascii ''Generate a correct query that retrieves data using the appropriate dialect. ''
              @ ascii ''The original request was: '' @ q @ ascii '', and the error was: '' @ e)),
           eng\<lparr>sent := sent eng @ [q]\<rparr>)
      | Inr rows \<Rightarrow>
          if length rows > 0 then
            (Inr \<lparr>success = True, error = None, results = Some rows\<rparr>,
             eng\<lparr>sent := sent eng @ [q]\<rparr>)
          else
            (Inr \<lparr>success = False, error = Some (ascii ''No rows selected''), results = None\<rparr>,
             eng\<lparr>sent := sent eng @ [q]\<rparr>))"
  by (simp add: execute_query_def query_and_wait_def split: sum.split)

lemma no_rows_text: "ascii ''No rows selected'' \<noteq> ascii ''Invalid query. Only SELECT queries are allowed.''"
  by (simp add: ascii_def)

text \<open>
  C4. For every string of code points, \<open>is_read_only_query\<close> accepts it exactly when its
  stripped, upper-cased text begins with \<^verbatim>\<open>SELECT\<close>, \<^verbatim>\<open>SHOW\<close> or \<^verbatim>\<open>DESC\<close>, which is the same
  as the specification's prefix check that ignores leading white space and letter case
  (\<open>spec_read_only\<close>). It rejects \<^verbatim>\<open>DROP TABLE x\<close> and accepts \<^verbatim>\<open>  select * from t\<close>. A
  query it rejects is refused by \<open>execute_query\<close> with the fixed error output, and the
  backend is left as it was: nothing is sent to it.
\<close>

theorem is_read_only_query_prefix_check:
  "is_read_only_query q =
     (prefix (ascii ''SELECT'') (upper (strip q)) \<or> prefix (ascii ''SHOW'') (upper (strip q))
      \<or> prefix (ascii ''DESC'') (upper (strip q)))
   \<and> is_read_only_query q = spec_read_only q
   \<and> \<not> is_read_only_query (ascii ''DROP TABLE x'')
   \<and> is_read_only_query (ascii ''  select * from t'')
   \<and> (\<not> is_read_only_query q \<longrightarrow>
        execute_query q eng project =
          (Inr \<lparr>success = False,
                error = Some (ascii ''Invalid query. Only SELECT queries are allowed.''),
                results = None\<rparr>, eng))"
proof (intro conjI impI)
  show "is_read_only_query q =
     (prefix (ascii ''SELECT'') (upper (strip q)) \<or> prefix (ascii ''SHOW'') (upper (strip q))
      \<or> prefix (ascii ''DESC'') (upper (strip q)))"
    by (simp only: is_read_only_query_def Let_def startswith_prefix)
  show "is_read_only_query q = spec_read_only q"
    by (rule is_read_only_query_spec)
  show "\<not> is_read_only_query (ascii ''DROP TABLE x'')"
    by (rule drop_table_rejected)
  show "is_read_only_query (ascii ''  select * from t'')"
    by (rule select_accepted)
  show "execute_query q eng project =
          (Inr \<lparr>success = False,
                error = Some (ascii ''Invalid query. Only SELECT queries are allowed.''),
                results = None\<rparr>, eng)" if "\<not> is_read_only_query q"
    using that by (rule execute_query_refused)
qed

text \<open>The refusal at \<^verbatim>\<open>DROP TABLE x\<close>: the backend's log stays empty.\<close>

theorem is_read_only_query_prefix_check_witness:
  "\<not> is_read_only_query (ascii ''DROP TABLE x'')
   \<and> execute_query (ascii ''DROP TABLE x'') empty_backend None =
       (Inr \<lparr>success = False,
             error = Some (ascii ''Invalid query. Only SELECT queries are allowed.''),
             results = None\<rparr>, empty_backend)
   \<and> sent (snd (execute_query (ascii ''DROP TABLE x'') empty_backend None)) = []"
proof -
  note t = is_read_only_query_prefix_check [of "ascii ''DROP TABLE x''" empty_backend None,
      THEN conjunct2, THEN conjunct2]
  have a: "\<not> is_read_only_query (ascii ''DROP TABLE x'')"
    by (rule t [THEN conjunct1])
  have b: "execute_query (ascii ''DROP TABLE x'') empty_backend None =
       (Inr \<lparr>success = False,
             error = Some (ascii ''Invalid query. Only SELECT queries are allowed.''),
             results = None\<rparr>, empty_backend)"
    using t [THEN conjunct2, THEN conjunct2] a by (rule mp)
  have c: "sent (snd (execute_query (ascii ''DROP TABLE x'') empty_backend None)) = []"
    by (simp only: b snd_conv) (simp add: empty_backend_def)
  show ?thesis
    by (rule conjI a b c)+
qed

text \<open>
  C8. The check accepts the compound statement \<^verbatim>\<open>SELECT 1; DROP TABLE x\<close>, which contains
  a destructive statement, and \<open>execute_query\<close> does not refuse it: whatever the backend
  and the project, the whole text is sent to the backend.
\<close>

theorem compound_statement_forwarded:
  "is_read_only_query (ascii ''SELECT 1; DROP TABLE x'')
   \<and> sublist (ascii ''DROP TABLE x'') (ascii ''SELECT 1; DROP TABLE x'')
   \<and> sent (snd (execute_query (ascii ''SELECT 1; DROP TABLE x'') eng project))
       = sent eng @ [ascii ''SELECT 1; DROP TABLE x'']
   \<and> fst (execute_query (ascii ''SELECT 1; DROP TABLE x'') eng project)
       \<noteq> Inr \<lparr>success = False,
               error = Some (ascii ''Invalid query. Only SELECT queries are allowed.''),
               results = None\<rparr>"
proof (intro conjI)
  show "is_read_only_query (ascii ''SELECT 1; DROP TABLE x'')"
    by (rule compound_accepted)
  have "ascii ''SELECT 1; DROP TABLE x'' = ascii ''SELECT 1; '' @ ascii ''DROP TABLE x'' @ []"
    by (simp add: ascii_def)
  then show "sublist (ascii ''DROP TABLE x'') (ascii ''SELECT 1; DROP TABLE x'')"
    unfolding sublist_def by blast
  show "sent (snd (execute_query (ascii ''SELECT 1; DROP TABLE x'') eng project))
       = sent eng @ [ascii ''SELECT 1; DROP TABLE x'']"
    by (simp add: execute_query_forwarded [OF compound_accepted] split: sum.split)
  show "fst (execute_query (ascii ''SELECT 1; DROP TABLE x'') eng project)
       \<noteq> Inr \<lparr>success = False,
               error = Some (ascii ''Invalid query. Only SELECT queries are allowed.''),
               results = None\<rparr>"
    using no_rows_text
    by (simp add: execute_query_forwarded [OF compound_accepted] split: sum.split)
qed

text \<open>The compound statement reaches a backend that had received nothing.\<close>

theorem compound_statement_forwarded_witness:
  "sent (snd (execute_query (ascii ''SELECT 1; DROP TABLE x'') empty_backend None))
     = [ascii ''SELECT 1; DROP TABLE x'']"
  using compound_statement_forwarded [of empty_backend None, THEN conjunct2, THEN conjunct2,
      THEN conjunct1]
  by (simp add: empty_backend_def)

text \<open>
  C10. When the query passes the read-only check and the backend answers it without an
  error and with no rows, \<open>execute_query\<close> returns the output with \<^verbatim>\<open>success\<close> false, the
  error \<^verbatim>\<open>No rows selected\<close> and no \<^verbatim>\<open>results\<close> entry; the query has been sent.
\<close>

theorem execute_query_no_rows:
  "is_read_only_query q \<and> answer eng q project = Inr [] \<longrightarrow>
   execute_query q eng project =
     (Inr \<lparr>success = False, error = Some (ascii ''No rows selected''), results = None\<rparr>,
      eng\<lparr>sent := sent eng @ [q]\<rparr>)"
  by (simp add: execute_query_forwarded)

text \<open>The query \<^verbatim>\<open>select 1\<close> against the backend that answers with an empty table.\<close>

theorem execute_query_no_rows_witness:
  "is_read_only_query (ascii ''select 1'')
   \<and> answer empty_backend (ascii ''select 1'') None = Inr []
   \<and> execute_query (ascii ''select 1'') empty_backend None =
       (Inr \<lparr>success = False, error = Some (ascii ''No rows selected''), results = None\<rparr>,
        empty_backend\<lparr>sent := [ascii ''select 1'']\<rparr>)"
proof -
  have a: "is_read_only_query (ascii ''select 1'')"
    by (simp add: query_eval)
  have b: "answer empty_backend (ascii ''select 1'') None = Inr []"
    by (simp add: empty_backend_def)
  have "execute_query (ascii ''select 1'') empty_backend None =
       (Inr \<lparr>success = False, error = Some (ascii ''No rows selected''), results = None\<rparr>,
        empty_backend\<lparr>sent := sent empty_backend @ [ascii ''select 1'']\<rparr>)"
    using execute_query_no_rows [of "ascii ''select 1''" empty_backend None] a b
    by (simp only: simp_thms)
  then have c: "execute_query (ascii ''select 1'') empty_backend None =
       (Inr \<lparr>success = False, error = Some (ascii ''No rows selected''), results = None\<rparr>,
        empty_backend\<lparr>sent := [ascii ''select 1'']\<rparr>)"
    by (simp add: empty_backend_def)
  show ?thesis
    by (rule conjI a b c)+
qed


section \<open>Properties of the fiscal week tool\<close>

lemma div_step:
  fixes z n :: int
  assumes "0 < n"
  shows "z div n - (z - 1) div n = (if z mod n = 0 then 1 else 0)"
proof (cases "z mod n = 0")
  case True
  have "z - 1 = n * (z div n - 1) + (n - 1)"
    using True mult_div_mod_eq [of n z] by (simp add: algebra_simps)
  then have "(z - 1) div n = z div n - 1"
    using assms by (intro int_div_pos_eq [where r = "n - 1"]) simp_all
  then show ?thesis using True by simp
next
  case False
  have "0 \<le> z mod n" using assms by simp
  with False have pos: "0 \<le> z mod n - 1" by simp
  have lt: "z mod n - 1 < n" using pos_mod_bound [OF assms, of z] by simp
  have "z - 1 = n * (z div n) + (z mod n - 1)"
    using mult_div_mod_eq [of n z] by (simp add: algebra_simps)
  then have "(z - 1) div n = z div n"
    using pos lt by (intro int_div_pos_eq [where r = "z mod n - 1"]) simp_all
  then show ?thesis using False by simp
qed



lemma mod_400_100: "(z::int) mod 400 = 0 \<Longrightarrow> z mod 100 = 0"
proof -
  assume "z mod 400 = 0"
  then have "400 dvd z" by (simp add: dvd_eq_mod_eq_0)
  then obtain k where "z = 400 * k" by (rule dvdE)
  then have "z = 100 * (4 * k)" by simp
  then show ?thesis by (simp only: mod_mult_self1_is_0)
qed

lemma mod_100_4: "(z::int) mod 100 = 0 \<Longrightarrow> z mod 4 = 0"
proof -
  assume "z mod 100 = 0"
  then have "100 dvd z" by (simp add: dvd_eq_mod_eq_0)
  then obtain k where "z = 100 * k" by (rule dvdE)
  then have "z = 4 * (25 * k)" by simp
  then show ?thesis by (simp only: mod_mult_self1_is_0)
qed


lemma year_diff:
  fixes y a b c a' b' c' :: int
  shows "(y * 365 + a - b + c) - ((y - 1) * 365 + a' - b' + c')
       = 365 + ((a - a') - (b - b') + (c - c'))"
  by (simp add: algebra_simps)

lemma leap_step:
  "(if y mod 4 = 0 then 1 else 0) - (if y mod 100 = 0 then 1 else 0)
     + (if y mod 400 = 0 then 1 else (0::int)) = (if is_leap y then 1 else 0)"
proof (cases "y mod 400 = 0")
  case True
  with mod_400_100 [of y] have h: "y mod 100 = 0" by blast
  with mod_100_4 [of y] have "y mod 4 = 0" by blast
  with True h show ?thesis by (simp only: is_leap_def if_True simp_thms)
next
  case n400: False
  show ?thesis
  proof (cases "y mod 100 = 0")
    case True
    with mod_100_4 [of y] have "y mod 4 = 0" by blast
    with True n400 show ?thesis by (simp only: is_leap_def if_True if_False simp_thms)
  next
    case False
    with n400 show ?thesis by (simp only: is_leap_def if_True if_False simp_thms)
  qed
qed


lemma days_in_year:
  "days_before_year (y + 1) - days_before_year y = (if is_leap y then 366 else 365)"
proof -
  have d4: "y div 4 - (y - 1) div 4 = (if y mod 4 = 0 then 1 else 0)"
    by (rule div_step) simp
  have d100: "y div 100 - (y - 1) div 100 = (if y mod 100 = 0 then 1 else 0)"
    by (rule div_step) simp
  have d400: "y div 400 - (y - 1) div 400 = (if y mod 400 = 0 then 1 else 0)"
    by (rule div_step) simp
  have "days_before_year (y + 1) - days_before_year y
      = 365 + ((y div 4 - (y - 1) div 4) - (y div 100 - (y - 1) div 100)
          + (y div 400 - (y - 1) div 400))"
    unfolding days_before_year_def add_diff_cancel by (rule year_diff)
  also have "\<dots> = 365 + (if is_leap y then 1 else 0)"
    by (simp only: d4 d100 d400 leap_step)
  also have "\<dots> = (if is_leap y then 366 else 365)"
    by simp
  finally show ?thesis .
qed


lemma month_enum:
  "1 \<le> m \<Longrightarrow> m \<le> 12 \<Longrightarrow> (m::int) \<in> {1, 2, 3, 4, 5, 6, 7, 8, 9, 10, 11, 12}"
  by (simp only: insert_iff empty_iff) arith

lemma days_before_month_7: "days_before_month y 7 = 181 + (if is_leap y then 1 else 0)"
  by (simp add: days_before_month_def)

lemma days_in_month_7: "days_in_month y 7 = 31"
  by (simp add: days_in_month_def)

lemma month_late:
  assumes "7 \<le> m" and "m \<le> 12"
  shows "181 + (if is_leap y then 1 else 0) \<le> days_before_month y m
       \<and> days_before_month y m + days_in_month y m \<le> 365 + (if is_leap y then 1 else 0)"
proof -
  from assms have "m \<in> {7, 8, 9, 10, 11, 12}"
    by (simp only: insert_iff empty_iff) arith
  then show ?thesis
    by (cases "is_leap y") (auto simp: days_before_month_def days_in_month_def)
qed

lemma month_early:
  assumes "1 \<le> m" and "m \<le> 6"
  shows "0 \<le> days_before_month y m
       \<and> days_before_month y m + days_in_month y m \<le> 181 + (if is_leap y then 1 else 0)"
proof -
  from assms have "m \<in> {1, 2, 3, 4, 5, 6}"
    by (simp only: insert_iff empty_iff) arith
  then show ?thesis
    by (cases "is_leap y") (auto simp: days_before_month_def days_in_month_def)
qed


lemma week_number_eq:
  assumes "valid_date d" and "7 \<le> month d \<or> 1 < year d"
  shows "week_number d = Inr ((toordinal d - toordinal (financial_year_start d)) div 7 + 1)"
proof (cases "7 \<le> month d")
  case True
  have "valid_date \<lparr>year = year d, month = 7, day = 1\<rparr>"
    using assms(1) by (simp add: valid_date_def days_in_month_7)
  then show ?thesis
    using True by (simp add: week_number_def date_new_def financial_year_start_def Let_def)
next
  case False
  with assms(2) have "1 < year d" by simp
  then have "valid_date \<lparr>year = year d - 1, month = 7, day = 1\<rparr>"
    using assms(1) by (simp add: valid_date_def days_in_month_7)
  then show ?thesis
    using False by (simp add: week_number_def date_new_def financial_year_start_def Let_def)
qed

lemma delta_bounds:
  assumes "valid_date d"
  shows "0 \<le> toordinal d - toordinal (financial_year_start d)
       \<and> toordinal d - toordinal (financial_year_start d) \<le> 365"
proof (cases "7 \<le> month d")
  case True
  define L :: int where "L = (if is_leap (year d) then 1 else 0)"
  from assms have m: "month d \<le> 12" and dy: "1 \<le> day d"
    and dm: "day d \<le> days_in_month (year d) (month d)"
    by (simp_all add: valid_date_def)
  from month_late [OF True m, of "year d"]
  have lo: "181 + L \<le> days_before_month (year d) (month d)"
    and hi: "days_before_month (year d) (month d) + days_in_month (year d) (month d) \<le> 365 + L"
    by (simp_all add: L_def)
  have s: "toordinal (financial_year_start d) = days_before_year (year d) + (181 + L) + 1"
    using True by (simp add: financial_year_start_def toordinal_def days_before_month_7 L_def)
  have L: "0 \<le> L" "L \<le> 1" by (simp_all add: L_def)
  have t: "toordinal d = days_before_year (year d) + days_before_month (year d) (month d) + day d"
    by (simp only: toordinal_def)
  show ?thesis
    unfolding s t using lo hi dy dm L by linarith
next
  case False
  define L :: int where "L = (if is_leap (year d) then 1 else 0)"
  define L' :: int where "L' = (if is_leap (year d - 1) then 1 else 0)"
  from assms False have m1: "1 \<le> month d" and m6: "month d \<le> 6" and dy: "1 \<le> day d"
    and dm: "day d \<le> days_in_month (year d) (month d)"
    by (simp_all add: valid_date_def)
  from month_early [OF m1 m6, of "year d"]
  have lo: "0 \<le> days_before_month (year d) (month d)"
    and hi: "days_before_month (year d) (month d) + days_in_month (year d) (month d) \<le> 181 + L"
    by (simp_all add: L_def)
  have s: "toordinal (financial_year_start d) = days_before_year (year d - 1) + (181 + L') + 1"
    using False by (simp add: financial_year_start_def toordinal_def days_before_month_7 L'_def)
  have "days_before_year (year d - 1 + 1) - days_before_year (year d - 1) = 365 + L'"
    unfolding days_in_year L'_def by simp
  then have y: "days_before_year (year d) = days_before_year (year d - 1) + 365 + L'"
    by simp
  have L: "0 \<le> L" "L \<le> 1" by (simp_all add: L_def)
  have t: "toordinal d = days_before_year (year d) + days_before_month (year d) (month d) + day d"
    by (simp only: toordinal_def)
  show ?thesis
    unfolding s t y using lo hi dy dm L by linarith
qed


lemma week_bounds:
  fixes delta :: int
  assumes "0 \<le> delta" and "delta \<le> 365"
  shows "1 \<le> delta div 7 + 1 \<and> delta div 7 + 1 \<le> 53"
proof -
  have "0 \<le> delta div 7"
    using assms(1) by (simp add: pos_imp_zdiv_nonneg_iff)
  moreover have "delta div 7 \<le> 365 div 7"
    using assms(2) by (intro zdiv_mono1) simp_all
  ultimately show ?thesis by simp
qed

lemma length_str_nat_digit: "n < 10 \<Longrightarrow> length (str_nat n) = 1"
  by (simp add: str_nat.simps [of n])

lemma length_str_nat_step: "10 \<le> n \<Longrightarrow> length (str_nat n) = Suc (length (str_nat (n div 10)))"
  by (simp add: str_nat.simps [of n])

lemma length_format_02d:
  assumes "0 \<le> k" and "k < 100"
  shows "length (format_02d k) = 2"
proof (cases "nat k < 10")
  case True
  then show ?thesis
    using assms by (simp add: format_02d_def str_int_def Let_def length_str_nat_digit)
next
  case False
  then have "10 \<le> nat k" by simp
  moreover have "nat k div 10 < 10" using assms by simp
  ultimately have "length (str_nat (nat k)) = 2"
    by (simp add: length_str_nat_step length_str_nat_digit)
  then show ?thesis
    using assms by (simp add: format_02d_def str_int_def Let_def)
qed

lemma length_str_int_year:
  assumes "1000 \<le> y" and "y \<le> 9999"
  shows "length (str_int y) = 4"
proof -
  define n where "n = nat y"
  have n: "1000 \<le> n" "n < 10000" using assms by (simp_all add: n_def)
  have a: "10 \<le> n" "10 \<le> n div 10" "10 \<le> n div 10 div 10" "n div 10 div 10 div 10 < 10"
    using n by simp_all
  have "length (str_nat n) = 4"
    by (simp add: length_str_nat_step [OF a(1)] length_str_nat_step [OF a(2)]
          length_str_nat_step [OF a(3)] length_str_nat_digit [OF a(4)])
  then show ?thesis
    using assms by (simp add: str_int_def n_def)
qed

lemma to_fiscalweekid_eq:
  assumes "week_number d = Inr k"
  shows "to_fiscalweekid d =
     Inr \<lparr>success = True, error = None, results = Some (str_int (fiscal_year d) @ format_02d k)\<rparr>"
  by (simp add: to_fiscalweekid_def get_aus_financial_year_week_def assms Let_def)

lemma fiscal_year_2024:
  assumes "valid_date d" and "fiscal_year d = 2024"
  shows "7 \<le> month d \<or> 1 < year d"
  using assms by (auto simp: fiscal_year_def split: if_splits)

lemma week_number_range:
  assumes "valid_date d" and "7 \<le> month d \<or> 1 < year d"
  shows "\<exists>k. k = (toordinal d - toordinal (financial_year_start d)) div 7 + 1 \<and> 1 \<le> k \<and> k \<le> 53
           \<and> week_number d = Inr k \<and> length (format_02d k) = 2
           \<and> to_fiscalweekid d =
               Inr \<lparr>success = True, error = None,
                     results = Some (str_int (fiscal_year d) @ format_02d k)\<rparr>"
proof -
  define k where "k = (toordinal d - toordinal (financial_year_start d)) div 7 + 1"
  have w: "week_number d = Inr k"
    unfolding k_def using assms by (rule week_number_eq)
  have b: "1 \<le> k \<and> k \<le> 53"
    unfolding k_def using delta_bounds [OF assms(1)] by (intro week_bounds) simp_all
  then have "length (format_02d k) = 2"
    by (intro length_format_02d) simp_all
  with w b to_fiscalweekid_eq [OF w] show ?thesis
    unfolding k_def by blast
qed


lemma first_of_july_2024:
  "to_fiscalweekid \<lparr>year = 2024, month = 7, day = 1\<rparr> =
     Inr \<lparr>success = True, error = None, results = Some ''202501''\<rparr>"
  "fiscal_year \<lparr>year = 2024, month = 7, day = 1\<rparr> = 2025"
  "week_number \<lparr>year = 2024, month = 7, day = 1\<rparr> = Inr 1"
  by code_simp+

lemma thirtieth_of_june_2024:
  "to_fiscalweekid \<lparr>year = 2024, month = 6, day = 30\<rparr> =
     Inr \<lparr>success = True, error = None, results = Some ''202453''\<rparr>"
  "fiscal_year \<lparr>year = 2024, month = 6, day = 30\<rparr> = 2024"
  "week_number \<lparr>year = 2024, month = 6, day = 30\<rparr> = Inr 53"
  by code_simp+

text \<open>
  C5. The date 2024-07-01 lies in fiscal year 2025, week 1, and is converted to
  \<^verbatim>\<open>202501\<close>; the date 2024-06-30 lies in fiscal year 2024, week 53, which is the last
  week of that year: no date of fiscal year 2024 has a larger week number. In general,
  for a valid date whose financial year starts within the calendar, the week is the
  number of days since the preceding 1 July, divided by 7 and rounded down, plus one; it
  lies between 1 and 53 and is rendered with two digits after the fiscal year, which has
  four digits from the year 1000 on.
\<close>

theorem fiscal_week_conversion:
  "to_fiscalweekid \<lparr>year = 2024, month = 7, day = 1\<rparr> =
     Inr \<lparr>success = True, error = None, results = Some ''202501''\<rparr>
   \<and> fiscal_year \<lparr>year = 2024, month = 7, day = 1\<rparr> = 2025
   \<and> week_number \<lparr>year = 2024, month = 7, day = 1\<rparr> = Inr 1
   \<and> to_fiscalweekid \<lparr>year = 2024, month = 6, day = 30\<rparr> =
     Inr \<lparr>success = True, error = None, results = Some ''202453''\<rparr>
   \<and> fiscal_year \<lparr>year = 2024, month = 6, day = 30\<rparr> = 2024
   \<and> week_number \<lparr>year = 2024, month = 6, day = 30\<rparr> = Inr 53
   \<and> (valid_date d \<and> fiscal_year d = 2024 \<longrightarrow>
        (\<exists>k. week_number d = Inr k \<and> 1 \<le> k \<and> k \<le> 53))
   \<and> (valid_date d \<and> (7 \<le> month d \<or> 1 < year d) \<longrightarrow>
        (\<exists>k. k = (toordinal d - toordinal (financial_year_start d)) div 7 + 1
           \<and> 1 \<le> k \<and> k \<le> 53
           \<and> week_number d = Inr k \<and> length (format_02d k) = 2
           \<and> to_fiscalweekid d =
               Inr \<lparr>success = True, error = None,
                     results = Some (str_int (fiscal_year d) @ format_02d k)\<rparr>))
   \<and> (1000 \<le> fiscal_year d \<and> fiscal_year d \<le> 9999 \<longrightarrow>
        length (str_int (fiscal_year d)) = 4)"
proof -
  have a: "valid_date d \<and> fiscal_year d = 2024 \<longrightarrow>
        (\<exists>k. week_number d = Inr k \<and> 1 \<le> k \<and> k \<le> 53)"
  proof
    assume h: "valid_date d \<and> fiscal_year d = 2024"
    then have "7 \<le> month d \<or> 1 < year d"
      by (intro fiscal_year_2024) simp_all
    with h week_number_range [of d] show "\<exists>k. week_number d = Inr k \<and> 1 \<le> k \<and> k \<le> 53"
      by blast
  qed
  have b: "valid_date d \<and> (7 \<le> month d \<or> 1 < year d) \<longrightarrow>
        (\<exists>k. k = (toordinal d - toordinal (financial_year_start d)) div 7 + 1
           \<and> 1 \<le> k \<and> k \<le> 53
           \<and> week_number d = Inr k \<and> length (format_02d k) = 2
           \<and> to_fiscalweekid d =
               Inr \<lparr>success = True, error = None,
                     results = Some (str_int (fiscal_year d) @ format_02d k)\<rparr>)"
    using week_number_range [of d] by blast
  have c: "1000 \<le> fiscal_year d \<and> fiscal_year d \<le> 9999 \<longrightarrow>
        length (str_int (fiscal_year d)) = 4"
    using length_str_int_year [of "fiscal_year d"] by blast
  show ?thesis
    by (intro conjI first_of_july_2024 thirtieth_of_june_2024 a b c)
qed

text \<open>
  The general parts at the leap day 2024-02-29, a date of fiscal year 2024: it lies in
  week 35.
\<close>

theorem fiscal_week_conversion_witness:
  "valid_date \<lparr>year = 2024, month = 2, day = 29\<rparr>
   \<and> fiscal_year \<lparr>year = 2024, month = 2, day = 29\<rparr> = 2024
   \<and> (\<exists>k. week_number \<lparr>year = 2024, month = 2, day = 29\<rparr> = Inr k \<and> 1 \<le> k \<and> k \<le> 53)
   \<and> week_number \<lparr>year = 2024, month = 2, day = 29\<rparr> = Inr 35
   \<and> length (str_int (fiscal_year \<lparr>year = 2024, month = 2, day = 29\<rparr>)) = 4"
proof -
  let ?d = "\<lparr>year = 2024, month = 2, day = 29\<rparr>"
  note t = fiscal_week_conversion [of ?d, THEN conjunct2, THEN conjunct2, THEN conjunct2,
      THEN conjunct2, THEN conjunct2, THEN conjunct2]
  have v: "valid_date ?d" and f: "fiscal_year ?d = 2024"
    by code_simp+
  have w: "week_number ?d = Inr 35"
    by code_simp
  have a: "\<exists>k. week_number ?d = Inr k \<and> 1 \<le> k \<and> k \<le> 53"
    using t [THEN conjunct1] v f by blast
  have b: "length (str_int (fiscal_year ?d)) = 4"
    using t [THEN conjunct2, THEN conjunct2] f by simp
  show ?thesis
    by (intro conjI v f a w b)
qed

end
